theory Spec2Isabelle
  imports Complex_Main "HOL-Library.AList" "HOL-Library.Char_ord" "HOL-Library.List_Lexorder"
    "HOL-Library.Product_Lexorder"
begin


section \<open>Values and text\<close>

text \<open>
  A cell of a table. \<open>Null\<close> is every value that \<open>pd.isna\<close> accepts (\<open>None\<close>, NaN,
  \<open>NaT\<close>, \<open>pd.NA\<close>); \<open>InfV s\<close> is the float infinity of sign \<open>s\<close> (\<open>True\<close> for +inf).
  Finite floats are exact rationals: the rounding of IEEE doubles is not modelled.
  \<open>TimeV\<close> is a timestamp, counted from the epoch. Text is a byte string (UTF-8 for
  what lies beyond ASCII); letter case and white space are those of ASCII.
\<close>

datatype cell = Null | Str string | IntV int | FloatV rat | InfV bool | BoolV bool | TimeV int

definition is_space :: "char \<Rightarrow> bool" where
  "is_space c = (of_char c \<in> {9::nat, 10, 11, 12, 13, 28, 29, 30, 31, 32})"

definition py_strip :: "string \<Rightarrow> string" where
  "py_strip s = rev (dropWhile is_space (rev (dropWhile is_space s)))"

definition lower_char :: "char \<Rightarrow> char" where
  "lower_char c = (if 65 \<le> (of_char c :: nat) \<and> (of_char c :: nat) \<le> 90
                   then char_of (of_char c + (32::nat)) else c)"

definition py_lower :: "string \<Rightarrow> string" where
  "py_lower s = map lower_char s"

definition upper_char :: "char \<Rightarrow> char" where
  "upper_char c = (if 97 \<le> (of_char c :: nat) \<and> (of_char c :: nat) \<le> 122
                   then char_of (of_char c - (32::nat)) else c)"

definition py_upper :: "string \<Rightarrow> string" where
  "py_upper s = map upper_char s"

definition py_lstrip :: "string \<Rightarrow> string" where
  "py_lstrip s = dropWhile is_space s"

definition py_rstrip :: "string \<Rightarrow> string" where
  "py_rstrip s = rev (dropWhile is_space (rev s))"

definition starts_with :: "string \<Rightarrow> string \<Rightarrow> bool" where
  "starts_with s p = (take (length p) s = p)"

definition ends_with :: "string \<Rightarrow> string \<Rightarrow> bool" where
  "ends_with s p = (length p \<le> length s \<and> drop (length s - length p) s = p)"

text \<open>Every run of white space becomes one blank: the regular expression \<open>\s+\<close>.\<close>

fun squeeze :: "bool \<Rightarrow> string \<Rightarrow> string" where
  "squeeze prev [] = []"
| "squeeze prev (c # cs) =
     (if is_space c then (if prev then squeeze True cs else CHR '' '' # squeeze True cs)
      else c # squeeze False cs)"

text \<open>\<open>" ".join(s.split())\<close>.\<close>

definition norm_ws :: "string \<Rightarrow> string" where
  "norm_ws s = squeeze False (py_strip s)"

text \<open>\<open>s.replace(pat, "")\<close> for a pattern that is not empty.\<close>

function remove_sub :: "string \<Rightarrow> string \<Rightarrow> string" where
  "remove_sub pat s =
     (if pat = [] \<or> s = [] then s
      else if take (length pat) s = pat then remove_sub pat (drop (length pat) s)
      else hd s # remove_sub pat (tl s))"
  by pat_completeness auto
termination
  by (relation "measure (\<lambda>(pat, s). length s)") auto

declare remove_sub.simps [simp del]

text \<open>\<open>sub in s\<close>.\<close>

fun contains :: "string \<Rightarrow> string \<Rightarrow> bool" where
  "contains [] sub = (sub = [])"
| "contains (c # cs) sub = (take (length sub) (c # cs) = sub \<or> contains cs sub)"

text \<open>Decimal text of an integer, as \<open>str\<close> and an f-string give it.\<close>

definition digit_char :: "int \<Rightarrow> char" where
  "digit_char d = ''0123456789'' ! nat d"

function show_digits :: "int \<Rightarrow> string" where
  "show_digits n = (if n < 10 then [digit_char n]
                    else show_digits (n div 10) @ [digit_char (n mod 10)])"
  by pat_completeness auto
termination
  by (relation "measure nat") auto

declare show_digits.simps [simp del]

definition show_int :: "int \<Rightarrow> string" where
  "show_int i = (if i < 0 then CHR ''-'' # show_digits (- i) else show_digits i)"

definition show_nat :: "nat \<Rightarrow> string" where
  "show_nat n = show_digits (int n)"

text \<open>Rounding to the nearest integer, a tie going to the even one.\<close>

definition round_half_even :: "rat \<Rightarrow> int" where
  "round_half_even x =
     (let f = \<lfloor>x\<rfloor>; d = x - of_int f
      in if d < 1 / 2 then f else if 1 / 2 < d then f + 1 else if even f then f else f + 1)"

text \<open>The format \<open>:.4f\<close> of an f-string.\<close>

definition fmt4 :: "rat \<Rightarrow> string" where
  "fmt4 x =
     (let n = round_half_even (\<bar>x\<bar> * 10000);
          frac = show_digits (n mod 10000)
      in (if x < 0 then ''-'' else []) @ show_digits (n div 10000) @ ''.''
         @ replicate (4 - length frac) CHR ''0'' @ frac)"

section \<open>The audit logger (src/ira/reporting/audit.py)\<close>

text \<open>
  An event is the dictionary handed to \<open>AuditLogger.log\<close>. The four required keys may be
  absent (\<open>None\<close>), which \<open>log\<close> (here \<open>logger_log\<close>) refuses; \<open>timestamp\<close> may also be present with the
  value \<open>None\<close> (\<open>Some None\<close>), as the validity phase writes it. The fields are typed as
  the phases of this repository fill them: names, reasons and logged values are text,
  \<open>row_id\<close> is the cell of the \<open>_row_id\<close> column, and \<open>ev_count\<close> is the
  \<open>violation_count\<close> or \<open>count\<close> entry of a validity event.
\<close>

record event =
  timestamp :: "string option option"
  event_type :: "string option"
  reason :: "string option"
  policy_section :: "string option"
  column :: "string option"
  row_id :: "cell option"
  old_value :: "string option"
  new_value :: "string option"
  ev_count :: "int option"

datatype audit_detail = Summary | Detailed

type_synonym summary_key = "string \<times> string \<times> string"

record footer =
  f_detail :: audit_detail
  total_events :: nat
  event_type_counts :: "(string \<times> nat) list"
  unique_columns_touched :: nat
  timestamp_start :: "string option"
  timestamp_end :: "string option"
  job_context :: "(string \<times> string) list"

text \<open>
  A line of the JSON Lines stream, before serialisation: a detailed event (it has no
  \<open>type\<close> key), a \<open>summary_aggregate\<close> record or the \<open>job_summary\<close> footer.
\<close>

datatype audit_line =
    EventLine event
  | SummaryAggregate string string string nat "event list"
  | JobSummary footer

fun line_type :: "audit_line \<Rightarrow> string option" where
  "line_type (EventLine e) = None"
| "line_type (SummaryAggregate etype col rsn n samples) = Some ''summary_aggregate''"
| "line_type (JobSummary f) = Some ''job_summary''"

text \<open>
  The logger object: \<open>file_lines\<close> is what has been written to the file, in order;
  \<open>file_closed\<close> is \<open>self.file.closed\<close>; the two dictionaries keep insertion order.
\<close>

record audit_logger =
  detail :: audit_detail
  opened :: bool
  file_closed :: bool
  file_lines :: "audit_line list"
  summary_counts :: "(summary_key \<times> nat) list"
  summary_samples :: "(summary_key \<times> event list) list"
  job_ctx :: "(string \<times> string) list"
  ts_start :: "string option"
  ts_end :: "string option"

datatype error = ValueError string | TypeError string

definition max_samples_per_group :: nat where
  "max_samples_per_group = 25"

text \<open>\<open>__init__\<close> opens the file for writing, so the stream starts empty.\<close>

definition new_logger :: "audit_detail \<Rightarrow> audit_logger" where
  "new_logger d =
     \<lparr>detail = d, opened = True, file_closed = False, file_lines = [],
      summary_counts = [], summary_samples = [], job_ctx = [],
      ts_start = None, ts_end = None\<rparr>"

definition write_line :: "audit_logger \<Rightarrow> audit_line \<Rightarrow> audit_logger" where
  "write_line L line =
     (if \<not> file_closed L then L\<lparr>file_lines := file_lines L @ [line]\<rparr> else L)"

text \<open>\<open>d[key] += 1\<close> on a \<open>defaultdict(int)\<close>.\<close>

fun bump :: "'k \<Rightarrow> ('k \<times> nat) list \<Rightarrow> ('k \<times> nat) list" where
  "bump k [] = [(k, 1)]"
| "bump k ((k', n) # rest) = (if k = k' then (k', n + 1) # rest else (k', n) # bump k rest)"

text \<open>The sample list of a key grows until it holds \<open>_max_samples_per_group\<close> events.\<close>

fun add_sample :: "'k \<Rightarrow> event \<Rightarrow> ('k \<times> event list) list \<Rightarrow> ('k \<times> event list) list" where
  "add_sample k e [] = [(k, [e])]"
| "add_sample k e ((k', es) # rest) =
     (if k = k' then (k', if length es < max_samples_per_group then es @ [e] else es) # rest
      else (k', es) # add_sample k e rest)"

definition event_key :: "event \<Rightarrow> summary_key" where
  "event_key e =
     (case event_type e of None \<Rightarrow> ''unknown'' | Some t \<Rightarrow> t,
      case column e of None \<Rightarrow> [] | Some c \<Rightarrow> c,
      case reason e of None \<Rightarrow> ''unknown'' | Some r \<Rightarrow> r)"

definition aggregate :: "audit_logger \<Rightarrow> event \<Rightarrow> audit_logger" where
  "aggregate L e =
     L\<lparr>summary_counts := bump (event_key e) (summary_counts L),
       summary_samples := add_sample (event_key e) e (summary_samples L)\<rparr>"

definition event_timestamp :: "event \<Rightarrow> string option" where
  "event_timestamp e = (case timestamp e of None \<Rightarrow> None | Some t \<Rightarrow> t)"

definition logger_log :: "audit_logger \<Rightarrow> event \<Rightarrow> error + audit_logger" where
  "logger_log L e =
     (if timestamp e = None \<or> event_type e = None \<or> reason e = None
         \<or> policy_section e = None
      then Inl (ValueError ''Missing required audit fields'')
      else
        let L1 = (if ts_start L = None then L\<lparr>ts_start := event_timestamp e\<rparr> else L);
            L2 = L1\<lparr>ts_end := event_timestamp e\<rparr>;
            L3 = aggregate L2 e
        in Inr (if detail L3 = Detailed then write_line L3 (EventLine e) else L3))"

text \<open>
  \<open>log_value_change\<close>: \<open>severity\<close> is never passed by this repository; the
  \<open>timestamp\<close> key is set only when the argument is truthy, so an empty timestamp
  leaves the key out and \<open>log\<close> raises.
\<close>

definition value_change_event ::
  "string \<Rightarrow> cell \<Rightarrow> string \<Rightarrow> string option \<Rightarrow> string option \<Rightarrow> string \<Rightarrow> string
   \<Rightarrow> string \<Rightarrow> event" where
  "value_change_event etype rid col old new rsn section ts =
     \<lparr>timestamp = (if ts = [] then None else Some (Some ts)),
      event_type = Some etype, reason = Some rsn, policy_section = Some section,
      column = Some col, row_id = Some rid, old_value = old, new_value = new,
      ev_count = None\<rparr>"

definition set_context :: "audit_logger \<Rightarrow> string \<Rightarrow> string \<Rightarrow> audit_logger" where
  "set_context L k v = L\<lparr>job_ctx := AList.update k v (job_ctx L)\<rparr>"

definition summary_records :: "audit_logger \<Rightarrow> audit_line list" where
  "summary_records L =
     map (\<lambda>(etype, col, rsn).
            SummaryAggregate etype col rsn
              (case map_of (summary_counts L) (etype, col, rsn) of None \<Rightarrow> 0 | Some n \<Rightarrow> n)
              (case map_of (summary_samples L) (etype, col, rsn) of None \<Rightarrow> [] | Some es \<Rightarrow> es))
       (sort (map fst (summary_counts L)))"

text \<open>The loop that builds the footer: (total_events, by_event_type, touched_columns).\<close>

fun footer_loop ::
  "(summary_key \<times> nat) list \<Rightarrow> nat \<times> (string \<times> nat) list \<times> string list
   \<Rightarrow> nat \<times> (string \<times> nat) list \<times> string list" where
  "footer_loop [] acc = acc"
| "footer_loop (((etype, col, rsn), n) # rest) (total_n, by_event_type, touched_columns) =
     footer_loop rest
       (total_n + n,
        AList.update etype ((case map_of by_event_type etype of None \<Rightarrow> 0 | Some k \<Rightarrow> k) + n)
          by_event_type,
        if col \<noteq> [] \<and> col \<noteq> ''__row__'' then List.insert col touched_columns
        else touched_columns)"

definition make_footer :: "audit_logger \<Rightarrow> footer" where
  "make_footer L =
     (let (total_n, by_event_type, touched_columns) = footer_loop (summary_counts L) (0, [], [])
      in \<lparr>f_detail = detail L, total_events = total_n,
          event_type_counts = sort_key fst by_event_type,
          unique_columns_touched = length touched_columns,
          timestamp_start = ts_start L, timestamp_end = ts_end L,
          job_context = sort_key fst (job_ctx L)\<rparr>)"

definition close :: "audit_logger \<Rightarrow> audit_logger" where
  "close L =
     (if \<not> opened L then L
      else
        let L1 = (if \<not> file_closed L then
                    let L' = (if detail L = Summary
                              then foldl write_line L (summary_records L) else L)
                    in write_line L' (JobSummary (make_footer L'))
                  else L)
        in L1\<lparr>file_closed := True, opened := False\<rparr>)"

text \<open>
  The calls a client can make on a logger. A \<open>log\<close> call that raises leaves the
  logger as it was.
\<close>

datatype call = Log event | SetContext string string | Close

fun do_call :: "audit_logger \<Rightarrow> call \<Rightarrow> audit_logger" where
  "do_call L (Log e) = (case logger_log L e of Inl err \<Rightarrow> L | Inr L' \<Rightarrow> L')"
| "do_call L (SetContext k v) = set_context L k v"
| "do_call L Close = close L"

definition job_summary_count :: "audit_line list \<Rightarrow> nat" where
  "job_summary_count ls = length (filter (\<lambda>l. line_type l = Some ''job_summary'') ls)"

text \<open>The columns that the logged events name, the synthetic ones left out.\<close>

definition touched_column_set :: "audit_logger \<Rightarrow> string set" where
  "touched_column_set L =
     {col. \<exists>etype rsn n. ((etype, col, rsn), n) \<in> set (summary_counts L)} - {[], ''__row__''}"


section \<open>Tables, library functions and the policy\<close>

text \<open>
  A pandas column is its dtype and its values; a frame is its row labels (the index) and
  its named columns, every column as long as the index. Row labels are the positions of
  the frame as it was loaded: no phase renumbers them.
\<close>

datatype dtype = DObject | DString | DInt | DFloat | DBool | DBoolean | DDatetime

record series =
  sdtype :: dtype
  vals :: "cell list"

record dataframe =
  df_index :: "nat list"
  df_cols :: "(string \<times> series) list"

definition is_numeric_dtype :: "series \<Rightarrow> bool" where
  "is_numeric_dtype s = (sdtype s \<in> {DInt, DFloat, DBool, DBoolean})"

definition is_datetime64_any_dtype :: "series \<Rightarrow> bool" where
  "is_datetime64_any_dtype s = (sdtype s = DDatetime)"

definition is_string_like :: "series \<Rightarrow> bool" where
  "is_string_like s = (sdtype s \<in> {DObject, DString})"

definition has_col :: "dataframe \<Rightarrow> string \<Rightarrow> bool" where
  "has_col df c = (map_of (df_cols df) c \<noteq> None)"

text \<open>\<open>df[col] = s\<close>: an existing column keeps its place, a new one goes last.\<close>

definition set_col :: "dataframe \<Rightarrow> string \<Rightarrow> series \<Rightarrow> dataframe" where
  "set_col df c s = df\<lparr>df_cols := AList.update c s (df_cols df)\<rparr>"

text \<open>The values of the \<open>_row_id\<close> column, row by row.\<close>

definition row_ids :: "dataframe \<Rightarrow> cell list" where
  "row_ids df = (case map_of (df_cols df) ''_row_id'' of None \<Rightarrow> [] | Some s \<Rightarrow> vals s)"

text \<open>Keeping the rows whose flag is set: \<open>df[mask]\<close>.\<close>

definition select :: "bool list \<Rightarrow> 'a list \<Rightarrow> 'a list" where
  "select msk xs = map snd (filter fst (zip msk xs))"

definition filter_rows :: "bool list \<Rightarrow> dataframe \<Rightarrow> dataframe" where
  "filter_rows msk df =
     \<lparr>df_index = select msk (df_index df),
      df_cols = map (\<lambda>(c, s). (c, s\<lparr>vals := select msk (vals s)\<rparr>)) (df_cols df)\<rparr>"

text \<open>
  What the code takes from pandas, Python and \<open>re\<close> and the model does not compute is a
  parameter: the text of a finite float and of a timestamp, \<open>repr\<close> of a string, NFKC
  normalisation, a regular-expression match of a pattern at the start of a text, and the
  date parsers. A parsed date is \<open>DtNaT\<close> (no date), \<open>DtStamp t\<close> (the timestamp, already
  brought to naive UTC) or \<open>DtOutOfBounds\<close> (a date that the column cannot store).
  Every theorem below holds for every such library.
\<close>

datatype dt_parsed = DtNaT | DtStamp int | DtOutOfBounds

record pylib =
  float_repr :: "rat \<Rightarrow> string"
  time_repr :: "int \<Rightarrow> string"
  str_repr :: "string \<Rightarrow> string"
  nfkc :: "string \<Rightarrow> string"
  regex_match :: "string \<Rightarrow> string \<Rightarrow> bool"
  try_format :: "string \<Rightarrow> bool \<Rightarrow> bool \<Rightarrow> string \<Rightarrow> dt_parsed option"
  to_datetime :: "bool \<Rightarrow> bool \<Rightarrow> cell \<Rightarrow> dt_parsed"
  parse_timestamp :: "string \<Rightarrow> int option"

text \<open>\<open>str(x)\<close> of a cell that is not null.\<close>

fun py_str :: "pylib \<Rightarrow> cell \<Rightarrow> string" where
  "py_str lib (Str s) = s"
| "py_str lib (IntV i) = show_int i"
| "py_str lib (FloatV r) = float_repr lib r"
| "py_str lib (InfV b) = (if b then ''inf'' else ''-inf'')"
| "py_str lib (BoolV b) = (if b then ''True'' else ''False'')"
| "py_str lib (TimeV t) = time_repr lib t"
| "py_str lib Null = ''nan''"

text \<open>\<open>str(v) if pd.notna(v) else None\<close>.\<close>

definition str_or_none :: "pylib \<Rightarrow> cell \<Rightarrow> string option" where
  "str_or_none lib v = (if v = Null then None else Some (py_str lib v))"

text \<open>
  The policy, a nested dictionary in the code, with the defaults of every \<open>.get\<close> filled
  in. A bucket of the imputation section is \<open>None\<close> when its key is absent or its
  dictionary is empty. A constant \<open>None\<close> is an absent constant.
\<close>

record roles_cfg =
  critical_columns :: "string list"
  protected_columns :: "string list"

record standardization_cfg =
  strip_nonprinting_on :: bool
  global_trim_whitespace :: bool
  global_collapse_whitespace :: bool
  casefold :: string
  mappings :: "(string \<times> (cell \<times> cell) list) list"

record parsing_cfg =
  column_types :: "(string \<times> string) list"
  true_values :: "string list"
  false_values :: "string list"
  bool_on_failure :: string
  allow_commas :: bool
  allow_currency_symbols :: bool
  allow_percent_symbol :: bool
  percent_scale :: string
  num_on_failure :: string
  dayfirst :: bool
  yearfirst :: bool
  allowed_formats :: "string list"
  dt_on_failure :: string

record validity_cfg =
  v_enabled :: bool
  ranges :: "(string \<times> cell option \<times> cell option) list"
  allowed_values :: "(string \<times> cell list) list"
  regex :: "(string \<times> string) list"
  non_negative_columns :: "string list"
  on_violation :: string

record bucket_cfg =
  default_strategy :: string
  constants :: "(string \<times> cell) list"
  allow_if_missing_pct_leq :: rat

record missing_cfg =
  m_enabled :: bool
  drop_if_missing_critical :: bool
  imp_numeric :: "bucket_cfg option"
  imp_datetime :: "bucket_cfg option"
  imp_categorical :: "bucket_cfg option"

record policy =
  roles :: roles_cfg
  standardization :: standardization_cfg
  parsing :: parsing_cfg
  validity_rules :: validity_cfg
  missing_data :: missing_cfg

text \<open>
  A library for the worked examples: it prints a whole-valued float as \<open>n.0\<close> and any
  other with four decimals, leaves text as it is, matches no pattern and parses no date.
\<close>

definition example_lib :: pylib where
  "example_lib =
     \<lparr>float_repr = (\<lambda>r. if of_int \<lfloor>r\<rfloor> = r then show_int \<lfloor>r\<rfloor> @ ''.0'' else fmt4 r),
      time_repr = (\<lambda>t. show_int t),
      str_repr = (\<lambda>s. [CHR 0x27] @ s @ [CHR 0x27]),
      nfkc = (\<lambda>s. s),
      regex_match = (\<lambda>p t. False),
      try_format = (\<lambda>f d y t. None),
      to_datetime = (\<lambda>d y c. DtNaT),
      parse_timestamp = (\<lambda>t. None)\<rparr>"

text \<open>A policy that configures nothing: every section at the defaults of the code.\<close>

definition default_policy :: policy where
  "default_policy =
     \<lparr>roles = \<lparr>critical_columns = [], protected_columns = []\<rparr>,
      standardization = \<lparr>strip_nonprinting_on = False, global_trim_whitespace = False,
        global_collapse_whitespace = False, casefold = ''none'', mappings = []\<rparr>,
      parsing = \<lparr>column_types = [], true_values = [], false_values = [],
        bool_on_failure = ''null'', allow_commas = True, allow_currency_symbols = True,
        allow_percent_symbol = True, percent_scale = ''auto'', num_on_failure = ''null'',
        dayfirst = False, yearfirst = False, allowed_formats = [], dt_on_failure = ''null''\<rparr>,
      validity_rules = \<lparr>v_enabled = True, ranges = [], allowed_values = [], regex = [],
        non_negative_columns = [], on_violation = ''flag''\<rparr>,
      missing_data = \<lparr>m_enabled = True, drop_if_missing_critical = True,
        imp_numeric = None, imp_datetime = None, imp_categorical = None\<rparr>\<rparr>"

section \<open>Missing data (src/ira/correction/missing.py)\<close>

definition missing_tokens :: "string list" where
  "missing_tokens = [[], ''nan'', ''null'', ''none'', ''na'', ''n/a'', ''inf'', ''-inf'',
     ''infinity'', ''-infinity'']"

text \<open>
  \<open>_is_effectively_missing\<close>, the same function in missing.py and parsing.py. The text
  of a finite number, of a boolean and of a timestamp is never one of the tokens.
\<close>

fun is_effectively_missing :: "cell \<Rightarrow> bool" where
  "is_effectively_missing Null = True"
| "is_effectively_missing (InfV b) = True"
| "is_effectively_missing (Str s) = (py_lower (py_strip s) \<in> set missing_tokens)"
| "is_effectively_missing (IntV i) = False"
| "is_effectively_missing (FloatV r) = False"
| "is_effectively_missing (BoolV b) = False"
| "is_effectively_missing (TimeV t) = False"

text \<open>
  The events of a loop over \<open>sorted(index)\<close>: each row's events, the rows taken by
  ascending label.
\<close>

definition by_label :: "nat list \<Rightarrow> 'a list list \<Rightarrow> 'a list" where
  "by_label labels per_row = concat (map snd (sort_key fst (zip labels per_row)))"

definition row_dropped_event :: "cell \<Rightarrow> string \<Rightarrow> string \<Rightarrow> string \<Rightarrow> event" where
  "row_dropped_event rid rsn section ts =
     value_change_event ''row_dropped'' rid ''__row__'' (Some ''row_present'') None rsn section ts"

text \<open>
  Every phase returns the table and the events it hands to the audit logger, in order,
  when there is one; without a logger the table is the same and nothing is logged. The
  clock is a function of no argument: the timestamp text \<open>ts\<close> it returns.
\<close>

definition drop_critical_missing ::
  "policy \<Rightarrow> string \<Rightarrow> dataframe \<Rightarrow> error + dataframe \<times> event list" where
  "drop_critical_missing pol ts df =
     (if \<not> has_col df ''_row_id'' then Inl (ValueError ''_row_id'')
      else if \<not> m_enabled (missing_data pol) \<or> \<not> drop_if_missing_critical (missing_data pol)
        then Inr (df, [])
      else
        let critical_cols = sort (critical_columns (roles pol)) in
        if critical_cols = [] then Inr (df, [])
        else
          let msk = foldl (\<lambda>m col. case map_of (df_cols df) col of
                                        None \<Rightarrow> m
                                      | Some s \<Rightarrow> map2 (\<or>) m (map is_effectively_missing (vals s)))
                       (replicate (length (df_index df)) False) critical_cols
          in if \<not> list_ex id msk then Inr (df, [])
             else Inr (filter_rows (map Not msk) df,
                       by_label (df_index df)
                         (map2 (\<lambda>m rid. if m then [row_dropped_event rid ''missing_critical_column''
                                                    ''missing_data.drop_if_missing_critical'' ts]
                                         else [])
                            msk (row_ids df))))"

datatype bucket = Numeric | Datetime | Categorical

fun bucket_name :: "bucket \<Rightarrow> string" where
  "bucket_name Numeric = ''numeric''"
| "bucket_name Datetime = ''datetime''"
| "bucket_name Categorical = ''categorical''"

fun bucket_cfg_of :: "policy \<Rightarrow> bucket \<Rightarrow> bucket_cfg option" where
  "bucket_cfg_of pol Numeric = imp_numeric (missing_data pol)"
| "bucket_cfg_of pol Datetime = imp_datetime (missing_data pol)"
| "bucket_cfg_of pol Categorical = imp_categorical (missing_data pol)"

definition numeric_types :: "string list" where
  "numeric_types = [''numeric'', ''integer'', ''float'']"

definition datetime_types :: "string list" where
  "datetime_types = [''datetime'', ''date'', ''timestamp'']"

definition boolean_types :: "string list" where
  "boolean_types = [''boolean'']"

text \<open>
  Whether the loop over \<open>df.columns\<close> puts a column into \<open>bucket_cols\<close>: by the
  policy's type tag when there is one, by the column's dtype otherwise.
\<close>

definition in_bucket :: "policy \<Rightarrow> bucket \<Rightarrow> string \<Rightarrow> series \<Rightarrow> bool" where
  "in_bucket pol b col s =
     (if col \<in> set (protected_columns (roles pol)) \<or> col = ''_row_id'' then False
      else
        let typ = (case map_of (column_types (parsing pol)) col of None \<Rightarrow> [] | Some t \<Rightarrow> t) in
        if typ \<noteq> [] then
          (if b = Numeric \<and> typ \<in> set numeric_types then True
           else if b = Datetime \<and> typ \<in> set datetime_types then True
           else if b = Categorical \<and> typ \<notin> set numeric_types \<and> typ \<notin> set datetime_types
                   \<and> typ \<notin> set boolean_types then True
           else False)
        else
          (if b = Numeric \<and> is_numeric_dtype s then True
           else if b = Datetime \<and> is_datetime64_any_dtype s then True
           else if b = Categorical \<and> \<not> is_numeric_dtype s \<and> \<not> is_datetime64_any_dtype s then True
           else False))"

definition bucket_cols :: "policy \<Rightarrow> bucket \<Rightarrow> dataframe \<Rightarrow> string list" where
  "bucket_cols pol b df = sort (map fst (filter (\<lambda>(c, s). in_bucket pol b c s) (df_cols df)))"

text \<open>
  The numbers of a numeric column, nulls skipped: a finite value or an infinity.
\<close>

fun num_of :: "cell \<Rightarrow> (rat + bool) option" where
  "num_of (IntV i) = Some (Inl (of_int i))"
| "num_of (FloatV r) = Some (Inl r)"
| "num_of (BoolV b) = Some (Inl (if b then 1 else 0))"
| "num_of (InfV b) = Some (Inr b)"
| "num_of c = None"

fun cell_of_num :: "rat + bool \<Rightarrow> cell" where
  "cell_of_num (Inl r) = FloatV r"
| "cell_of_num (Inr b) = InfV b"

text \<open>Float addition with infinities: opposite infinities give NaN.\<close>

fun ext_add :: "cell \<Rightarrow> cell \<Rightarrow> cell" where
  "ext_add (FloatV a) (FloatV b) = FloatV (a + b)"
| "ext_add (InfV a) (InfV b) = (if a = b then InfV a else Null)"
| "ext_add (InfV a) (FloatV b) = InfV a"
| "ext_add (FloatV a) (InfV b) = InfV b"
| "ext_add x y = Null"

fun ext_div :: "cell \<Rightarrow> nat \<Rightarrow> cell" where
  "ext_div (FloatV a) n = FloatV (a / of_nat n)"
| "ext_div c n = c"

text \<open>\<open>Series.mean()\<close> and \<open>Series.median()\<close>: NaN for a column with no number.\<close>

definition series_mean :: "cell list \<Rightarrow> cell" where
  "series_mean vs =
     (let xs = map cell_of_num (List.map_filter num_of vs)
      in if xs = [] then Null else ext_div (foldl ext_add (FloatV 0) xs) (length xs))"

definition num_rank :: "rat + bool \<Rightarrow> int \<times> rat" where
  "num_rank x = (case x of Inl r \<Rightarrow> (1, r) | Inr b \<Rightarrow> (if b then (2, 0) else (0, 0)))"

definition series_median :: "cell list \<Rightarrow> cell" where
  "series_median vs =
     (let xs = map cell_of_num (sort_key num_rank (List.map_filter num_of vs)); n = length xs
      in if n = 0 then Null
         else if odd n then xs ! (n div 2)
         else ext_div (ext_add (xs ! (n div 2 - 1)) (xs ! (n div 2))) 2)"

text \<open>
  \<open>Series.mode().iloc[0]\<close>: among the most frequent values the least one when they are all
  text, the first met otherwise; \<open>None\<close> for a column with no value.
\<close>

definition series_mode :: "cell list \<Rightarrow> cell option" where
  "series_mode vs =
     (let ds = rev (remdups (rev (filter (\<lambda>v. v \<noteq> Null) vs)));
          top = foldl max 0 (map (\<lambda>d. count_list vs d) ds);
          modes = filter (\<lambda>d. count_list vs d = top) ds;
          texts = List.map_filter (\<lambda>d. case d of Str s \<Rightarrow> Some s | _ \<Rightarrow> None) modes
      in case modes of
           [] \<Rightarrow> None
         | m # ms \<Rightarrow> if length texts = length modes then Some (Str (hd (sort texts))) else Some m)"

text \<open>
  The dtype of a column after \<open>df.at[idx, col] = fill_val\<close>, and the value as the column
  stores it: a value that the dtype cannot hold turns the column into an object column.
\<close>

fun fill_dtype :: "dtype \<Rightarrow> cell \<Rightarrow> dtype" where
  "fill_dtype DObject v = DObject"
| "fill_dtype DString v = (case v of Str s \<Rightarrow> DString | _ \<Rightarrow> DObject)"
| "fill_dtype DFloat v = (case v of FloatV r \<Rightarrow> DFloat | IntV i \<Rightarrow> DFloat | InfV b \<Rightarrow> DFloat
                                   | _ \<Rightarrow> DObject)"
| "fill_dtype DInt v = (case v of IntV i \<Rightarrow> DInt | FloatV r \<Rightarrow> DFloat | InfV b \<Rightarrow> DFloat
                                 | _ \<Rightarrow> DObject)"
| "fill_dtype DBool v = (case v of BoolV b \<Rightarrow> DBool | _ \<Rightarrow> DObject)"
| "fill_dtype DBoolean v = (case v of BoolV b \<Rightarrow> DBoolean | _ \<Rightarrow> DObject)"
| "fill_dtype DDatetime v = (case v of TimeV t \<Rightarrow> DDatetime | _ \<Rightarrow> DObject)"

definition fill_cell :: "dtype \<Rightarrow> cell \<Rightarrow> cell" where
  "fill_cell d v = (case (fill_dtype d v, v) of (DFloat, IntV i) \<Rightarrow> FloatV (of_int i) | _ \<Rightarrow> v)"

definition fill_series :: "series \<Rightarrow> bool list \<Rightarrow> cell \<Rightarrow> series" where
  "fill_series s missing fill_val =
     \<lparr>sdtype = fill_dtype (sdtype s) fill_val,
      vals = map2 (\<lambda>m v. if m then fill_cell (sdtype s) fill_val else v) missing (vals s)\<rparr>"

text \<open>
  The choice of strategy and fill value: the column's constant first, then the bucket's
  default. \<open>None\<close> is every path that leaves the column alone (\<open>continue\<close>).
\<close>

definition choose_fill ::
  "bucket \<Rightarrow> bucket_cfg \<Rightarrow> string \<Rightarrow> series \<Rightarrow> bool list \<Rightarrow> (string \<times> cell) option" where
  "choose_fill b cfg col s missing =
     (let strategy = default_strategy cfg;
          constant_val = (case map_of (constants cfg) col of Some Null \<Rightarrow> None | r \<Rightarrow> r);
          chosen =
            (case constant_val of
               Some v \<Rightarrow> Some (''constant'', v)
             | None \<Rightarrow>
                 if strategy = ''mean'' \<and> is_numeric_dtype s
                   then Some (strategy, series_mean (vals s))
                 else if strategy = ''median'' \<and> is_numeric_dtype s
                   then Some (strategy, series_median (vals s))
                 else if strategy = ''mode'' \<and> b = Categorical
                   then (case series_mode (select (map Not missing) (vals s)) of
                           None \<Rightarrow> None | Some m \<Rightarrow> Some (strategy, m))
                 else None)
      in case chosen of
           None \<Rightarrow> None
         | Some (st, v) \<Rightarrow> if v = Null then None else Some (st, v))"

definition skip_event :: "string \<Rightarrow> bucket \<Rightarrow> rat \<Rightarrow> rat \<Rightarrow> string \<Rightarrow> event" where
  "skip_event col b missing_pct threshold ts =
     \<lparr>timestamp = Some (Some ts),
      event_type = Some ''imputation_skipped_threshold'',
      reason = Some (''missing_pct_'' @ fmt4 missing_pct @ ''_gt_'' @ fmt4 threshold),
      policy_section = Some (''missing_data.imputation.'' @ bucket_name b),
      column = Some col, row_id = None, old_value = None, new_value = None,
      ev_count = None\<rparr>"

definition missing_ratio :: "series \<Rightarrow> rat" where
  "missing_ratio s =
     of_nat (length (filter is_effectively_missing (vals s))) / of_nat (length (vals s))"

text \<open>The body of the loop over the columns of a bucket.\<close>

definition impute_col ::
  "pylib \<Rightarrow> string \<Rightarrow> bucket \<Rightarrow> bucket_cfg \<Rightarrow> dataframe \<times> event list \<Rightarrow> string
   \<Rightarrow> dataframe \<times> event list" where
  "impute_col lib ts b cfg st col =
     (case map_of (df_cols (fst st)) col of
        None \<Rightarrow> st
      | Some s \<Rightarrow>
          let missing = map is_effectively_missing (vals s) in
          if \<not> list_ex id missing then st
          else if allow_if_missing_pct_leq cfg < missing_ratio s then
            (fst st, snd st @ [skip_event col b (missing_ratio s) (allow_if_missing_pct_leq cfg) ts])
          else
            case choose_fill b cfg col s missing of
              None \<Rightarrow> st
            | Some (strategy, fv) \<Rightarrow>
                let fill_val =
                      (case fv of
                         Str t \<Rightarrow> if is_datetime64_any_dtype s
                                   then (case parse_timestamp lib t of
                                           Some tm \<Rightarrow> TimeV tm | None \<Rightarrow> fv)
                                   else fv
                       | _ \<Rightarrow> fv)
                in (set_col (fst st) col (fill_series s missing fill_val),
                    snd st @ by_label (df_index (fst st))
                      (map (\<lambda>(m, old_val, rid).
                              if m then [value_change_event ''imputation_fill'' rid col
                                           (str_or_none lib old_val) (Some (py_str lib fill_val))
                                           (''imputation_'' @ strategy)
                                           (''missing_data.imputation.'' @ bucket_name b) ts]
                              else [])
                         (zip missing (zip (vals s) (row_ids (fst st)))))))"

definition impute_bucket ::
  "pylib \<Rightarrow> policy \<Rightarrow> string \<Rightarrow> dataframe \<times> event list \<Rightarrow> bucket \<Rightarrow> dataframe \<times> event list" where
  "impute_bucket lib pol ts st b =
     (case bucket_cfg_of pol b of
        None \<Rightarrow> st
      | Some cfg \<Rightarrow>
          if default_strategy cfg = ''none'' \<and> constants cfg = [] then st
          else foldl (impute_col lib ts b cfg) st (bucket_cols pol b (fst st)))"

definition apply_imputation ::
  "pylib \<Rightarrow> policy \<Rightarrow> string \<Rightarrow> dataframe \<Rightarrow> error + dataframe \<times> event list" where
  "apply_imputation lib pol ts df =
     (if \<not> has_col df ''_row_id'' then Inl (ValueError ''_row_id'')
      else if \<not> m_enabled (missing_data pol) then Inr (df, [])
      else if imp_numeric (missing_data pol) = None \<and> imp_datetime (missing_data pol) = None
              \<and> imp_categorical (missing_data pol) = None then Inr (df, [])
      else Inr (foldl (impute_bucket lib pol ts) (df, []) [Numeric, Datetime, Categorical]))"

section \<open>Parsing (src/ira/correction/parsing.py)\<close>

text \<open>The currency signs, as UTF-8: dollar, euro, pound, rupee, yen.\<close>

definition currency_symbols :: "string list" where
  "currency_symbols =
     [''$'', [CHR 0xE2, CHR 0x82, CHR 0xAC], [CHR 0xC2, CHR 0xA3],
      [CHR 0xE2, CHR 0x82, CHR 0xB9], [CHR 0xC2, CHR 0xA5]]"

definition currency_codes :: "string list" where
  "currency_codes =
     [''USD'', ''EUR'', ''GBP'', ''INR'', ''JPY'', ''AUD'', ''CAD'', ''CHF'', ''CNY'', ''MXN'',
      ''BRL'', ''KRW'', ''SGD'', ''HKD'', ''NZD'', ''RS.'', ''RS'']"

text \<open>
  The loop over the currency codes: the first code that starts or ends the text and
  leaves something beside it wins (\<open>break\<close>).
\<close>

fun strip_code :: "string \<Rightarrow> string \<Rightarrow> string list \<Rightarrow> string option" where
  "strip_code s_stripped s_upper [] = None"
| "strip_code s_stripped s_upper (code # codes) =
     (let rest1 = py_lstrip (drop (length code) s_stripped);
          rest2 = py_rstrip (take (length s_stripped - length code) s_stripped)
      in if starts_with s_upper code \<and> rest1 \<noteq> [] then Some rest1
         else if ends_with s_upper code \<and> rest2 \<noteq> [] then Some rest2
         else strip_code s_stripped s_upper codes)"

definition strip_currency_and_commas :: "string \<Rightarrow> bool \<Rightarrow> bool \<Rightarrow> string" where
  "strip_currency_and_commas text commas currency =
     (let s = (if commas then filter (\<lambda>c. c \<noteq> CHR '','') text else text);
          s = (if currency then
                 let s1 = foldl (\<lambda>acc sym. remove_sub sym acc) s currency_symbols;
                     s_stripped = py_strip s1
                 in case strip_code s_stripped (py_upper s_stripped) currency_codes of
                      Some rest \<Rightarrow> rest | None \<Rightarrow> s1
               else s)
      in py_strip s)"

definition nan_inf_tokens :: "string list" where
  "nan_inf_tokens = [''nan'', ''-nan'', ''+nan'', ''inf'', ''-inf'', ''+inf'',
     ''infinity'', ''-infinity'', ''+infinity'']"

definition is_digit :: "char \<Rightarrow> bool" where
  "is_digit c = (48 \<le> (of_char c :: nat) \<and> (of_char c :: nat) \<le> 57)"

text \<open>
  The substitution of \<open>(?<=\d) (?=\d)\<close> by nothing: a blank between two digits goes;
  \<open>prev\<close> is the character before, in the text as it was.
\<close>

fun drop_digit_blanks :: "char option \<Rightarrow> string \<Rightarrow> string" where
  "drop_digit_blanks prev [] = []"
| "drop_digit_blanks prev (c # cs) =
     (if c = CHR '' '' \<and> (case prev of Some p \<Rightarrow> is_digit p | None \<Rightarrow> False)
         \<and> (case cs of d # ds \<Rightarrow> is_digit d | [] \<Rightarrow> False)
      then drop_digit_blanks (Some c) cs
      else c # drop_digit_blanks (Some c) cs)"

definition en_dash :: string where
  "en_dash = [CHR 0xE2, CHR 0x80, CHR 0x93]"

definition em_dash :: string where
  "em_dash = [CHR 0xE2, CHR 0x80, CHR 0x94]"

text \<open>
  \<open>_normalize_numeric_string\<close>: \<open>Inl\<close> is the \<open>ValueError\<close> raised on a NaN or
  Infinity token.
\<close>

definition normalize_numeric_string :: "string \<Rightarrow> error + string" where
  "normalize_numeric_string raw =
     (let s = py_strip raw;
          s_lower = filter (\<lambda>c. c \<noteq> CHR '' '') (py_lower s)
      in if s_lower \<in> set nan_inf_tokens then Inl (ValueError ''nan_or_infinity_token'')
         else
           let s = (if starts_with s ''('' \<and> ends_with s '')''
                    then CHR ''-'' # take (length s - 2) (drop 1 s) else s);
               s = (if starts_with s en_dash \<or> starts_with s em_dash
                    then CHR ''-'' # drop 3 s else s);
               s = (if starts_with s ''+'' \<and> 1 < length s \<and> s ! 1 \<noteq> CHR ''+''
                    then drop 1 s else s)
           in Inr (drop_digit_blanks None s))"

text \<open>
  \<open>float(text)\<close>. The text is stripped; after an optional sign it is \<open>inf\<close>,
  \<open>infinity\<close> or \<open>nan\<close> in any letter case, or a decimal number: digits (single
  underscores may stand between digits), an optional point and fraction, an optional
  exponent. \<open>None\<close> is the \<open>ValueError\<close>; a value too large for a double is an
  infinity.
\<close>

definition digits_ok :: "string \<Rightarrow> bool" where
  "digits_ok ds =
     (ds \<noteq> [] \<and> is_digit (hd ds) \<and> is_digit (last ds)
      \<and> list_all (\<lambda>c. is_digit c \<or> c = CHR ''_'') ds \<and> \<not> contains ds ''__'')"

definition digits_val :: "string \<Rightarrow> int" where
  "digits_val ds =
     foldl (\<lambda>a c. 10 * a + (int (of_char c) - 48)) 0 (filter is_digit ds)"

definition num_digits :: "string \<Rightarrow> nat" where
  "num_digits ds = length (filter is_digit ds)"

definition split_sign :: "string \<Rightarrow> bool \<times> string" where
  "split_sign t =
     (case t of
        c # r \<Rightarrow> if c = CHR ''-'' then (False, r) else if c = CHR ''+'' then (True, r)
                  else (True, t)
      | [] \<Rightarrow> (True, t))"

definition parse_exponent :: "string \<Rightarrow> int option" where
  "parse_exponent r =
     (case r of
        [] \<Rightarrow> Some 0
      | c # e \<Rightarrow>
          if c = CHR ''e'' \<or> c = CHR ''E'' then
            (let (pos, ds) = split_sign e
             in if digits_ok ds then Some (if pos then digits_val ds else - digits_val ds)
                else None)
          else None)"

definition double_limit :: rat where
  "double_limit = 2 ^ 1024 - 2 ^ 970"

definition py_float :: "string \<Rightarrow> cell option" where
  "py_float text =
     (let (pos, u) = split_sign (py_strip text); l = py_lower u in
      if l = ''inf'' \<or> l = ''infinity'' then Some (InfV pos)
      else if l = ''nan'' then Some Null
      else
        let ip = takeWhile (\<lambda>c. is_digit c \<or> c = CHR ''_'') u;
            r1 = dropWhile (\<lambda>c. is_digit c \<or> c = CHR ''_'') u;
            dot = (r1 \<noteq> [] \<and> hd r1 = CHR ''.'');
            fp = (if dot then takeWhile (\<lambda>c. is_digit c \<or> c = CHR ''_'') (tl r1) else []);
            r2 = (if dot then dropWhile (\<lambda>c. is_digit c \<or> c = CHR ''_'') (tl r1) else r1)
        in if (ip = [] \<and> fp = []) \<or> (ip \<noteq> [] \<and> \<not> digits_ok ip) \<or> (fp \<noteq> [] \<and> \<not> digits_ok fp)
           then None
           else case parse_exponent r2 of
                  None \<Rightarrow> None
                | Some e \<Rightarrow>
                    let m = of_int (digits_val ip) + of_int (digits_val fp) / 10 ^ num_digits fp;
                        v = (if 0 \<le> e then m * 10 ^ nat e else m / 10 ^ nat (- e))
                    in if double_limit \<le> v then Some (InfV pos)
                       else Some (FloatV (if pos then v else - v)))"

text \<open>
  What one pass of a parsing loop leaves for one row: the value for the output buffer,
  whether the row is added to \<open>rows_to_drop\<close>, and the reason of the audited failure if
  there is one.
\<close>

type_synonym outcome = "cell \<times> bool \<times> string option"

text \<open>The branch on the failure mode that the three loops share.\<close>

definition on_failure_outcome :: "string \<Rightarrow> cell \<Rightarrow> bool \<Rightarrow> string \<Rightarrow> outcome" where
  "on_failure_outcome mode val buffer_keeps_raw rsn =
     (if mode = ''drop_row'' then (if buffer_keeps_raw then val else Null, True, Some rsn)
      else if mode = ''null'' then (Null, False, Some rsn)
      else if mode = ''keep_raw'' then (val, False, Some rsn)
      else (Null, False, Some rsn))"

definition boolean_cell :: "pylib \<Rightarrow> parsing_cfg \<Rightarrow> cell \<Rightarrow> outcome" where
  "boolean_cell lib cfg val =
     (if is_effectively_missing val then (Null, False, None)
      else
        let sval = py_lower (py_strip (py_str lib val)) in
        if sval \<in> set (map (\<lambda>v. py_lower (py_strip v)) (true_values cfg))
          then (BoolV True, False, None)
        else if sval \<in> set (map (\<lambda>v. py_lower (py_strip v)) (false_values cfg))
          then (BoolV False, False, None)
        else on_failure_outcome (bool_on_failure cfg) val False ''invalid_boolean'')"

text \<open>
  The text of a numeric cell up to \<open>float\<close>: \<open>Inl\<close> is the message of the exception,
  \<open>Inr\<close> the number.
\<close>

definition numeric_text :: "pylib \<Rightarrow> parsing_cfg \<Rightarrow> string \<Rightarrow> string + rat" where
  "numeric_text lib cfg txt =
     (let raw = py_strip txt;
          raw_normalized = norm_ws raw;
          is_pct = (allow_percent_symbol cfg \<and> CHR ''%'' \<in> set raw_normalized);
          raw_num = (if is_pct then py_strip (filter (\<lambda>c. c \<noteq> CHR ''%'') raw_normalized)
                     else raw);
          raw_num = strip_currency_and_commas raw_num (allow_commas cfg)
                      (allow_currency_symbols cfg);
          raw_num = (case normalize_numeric_string raw_num of Inl e \<Rightarrow> raw_num | Inr s \<Rightarrow> s)
      in case py_float raw_num of
           None \<Rightarrow> Inl (''could not convert string to float: '' @ str_repr lib raw_num)
         | Some (FloatV num) \<Rightarrow>
             Inr (if is_pct \<and> (percent_scale cfg = ''0_1'' \<or> percent_scale cfg = ''auto'')
                  then num / 100 else num)
         | Some other \<Rightarrow> Inl ''infinite_or_nan_value'')"

text \<open>
  A finite float is its own text read back (\<open>float(repr(x)) == x\<close>, and no step before
  \<open>float\<close> changes such a text); every other value goes through its text.
\<close>

definition numeric_cell :: "pylib \<Rightarrow> parsing_cfg \<Rightarrow> cell \<Rightarrow> outcome" where
  "numeric_cell lib cfg val =
     (let keep_raw_mode = (num_on_failure cfg = ''keep_raw'') in
      if is_effectively_missing val then (if keep_raw_mode then val else Null, False, None)
      else
        case (case val of FloatV r \<Rightarrow> Inr r | _ \<Rightarrow> numeric_text lib cfg (py_str lib val)) of
          Inr num \<Rightarrow> (FloatV num, False, None)
        | Inl msg \<Rightarrow>
            on_failure_outcome (num_on_failure cfg) val keep_raw_mode
              (if contains msg ''infinite'' \<or> contains msg ''nan'' then msg
               else ''invalid_numeric''))"

definition datetime_cell :: "pylib \<Rightarrow> parsing_cfg \<Rightarrow> cell \<Rightarrow> outcome" where
  "datetime_cell lib cfg val =
     (let keep_raw_mode = (dt_on_failure cfg = ''keep_raw'') in
      if is_effectively_missing val then (if keep_raw_mode then val else Null, False, None)
      else
        let tried = (if allowed_formats cfg \<noteq> []
                     then List.find (\<lambda>r. r \<noteq> None)
                            (map (\<lambda>fmt. try_format lib fmt (dayfirst cfg) (yearfirst cfg)
                                           (py_strip (py_str lib val)))
                               (allowed_formats cfg))
                     else None);
            parsed = (case tried of
                        Some (Some p) \<Rightarrow> p
                      | _ \<Rightarrow> to_datetime lib (dayfirst cfg) (yearfirst cfg) val)
        in case parsed of
             DtNaT \<Rightarrow> on_failure_outcome (dt_on_failure cfg) val keep_raw_mode ''invalid_datetime''
           | DtStamp t \<Rightarrow> (TimeV t, False, None)
           | DtOutOfBounds \<Rightarrow> (Null, False, Some ''datetime_out_of_bounds''))"

datatype kind = KBoolean | KNumeric | KDatetime

fun kind_types :: "kind \<Rightarrow> string list" where
  "kind_types KBoolean = boolean_types"
| "kind_types KNumeric = numeric_types"
| "kind_types KDatetime = datetime_types"

fun kind_section :: "kind \<Rightarrow> string" where
  "kind_section KBoolean = ''parsing.boolean''"
| "kind_section KNumeric = ''parsing.numeric''"
| "kind_section KDatetime = ''parsing.datetime''"

fun kind_cell :: "kind \<Rightarrow> pylib \<Rightarrow> parsing_cfg \<Rightarrow> cell \<Rightarrow> outcome" where
  "kind_cell KBoolean = boolean_cell"
| "kind_cell KNumeric = numeric_cell"
| "kind_cell KDatetime = datetime_cell"

text \<open>The dtype of the buffer that replaces the column.\<close>

fun kind_dtype :: "kind \<Rightarrow> parsing_cfg \<Rightarrow> dtype" where
  "kind_dtype KBoolean cfg = (if bool_on_failure cfg \<noteq> ''keep_raw'' then DBoolean else DObject)"
| "kind_dtype KNumeric cfg = (if num_on_failure cfg = ''keep_raw'' then DObject else DFloat)"
| "kind_dtype KDatetime cfg = (if dt_on_failure cfg = ''keep_raw'' then DObject else DDatetime)"

text \<open>
  \<open>sorted([c for c, t in col_types.items() if t in ... and c in df.columns and c not in
  protected])\<close>, for the three kinds in the order of the code.
\<close>

definition kind_cols :: "policy \<Rightarrow> dataframe \<Rightarrow> kind \<Rightarrow> string list" where
  "kind_cols pol df k =
     sort (map fst (filter (\<lambda>(c, t). t \<in> set (kind_types k) \<and> has_col df c
                                     \<and> c \<notin> set (protected_columns (roles pol)))
                      (column_types (parsing pol))))"

definition parse_targets :: "policy \<Rightarrow> dataframe \<Rightarrow> (kind \<times> string) list" where
  "parse_targets pol df =
     concat (map (\<lambda>k. map (\<lambda>c. (k, c)) (kind_cols pol df k)) [KBoolean, KNumeric, KDatetime])"

definition parsing_failure_event :: "pylib \<Rightarrow> cell \<Rightarrow> string \<Rightarrow> cell \<Rightarrow> string \<Rightarrow> string \<Rightarrow> string
   \<Rightarrow> event" where
  "parsing_failure_event lib rid col old rsn section ts =
     value_change_event ''parsing_failure'' rid col (Some (py_str lib old)) None rsn section ts"

text \<open>
  The state of the phase between two columns: the table, \<open>rows_to_drop\<close> (row labels)
  and the events logged so far. One step is the loop over the rows of one column and the
  assignment \<open>df[col] = out\<close>; the row ids are those of the table as it came in.
\<close>

definition parse_column ::
  "pylib \<Rightarrow> policy \<Rightarrow> string \<Rightarrow> cell list \<Rightarrow> dataframe \<times> nat list \<times> event list \<Rightarrow> kind \<times> string
   \<Rightarrow> dataframe \<times> nat list \<times> event list" where
  "parse_column lib pol ts rids st target =
     (case st of (df, rows_to_drop, evs) \<Rightarrow>
      case target of (k, col) \<Rightarrow>
      case map_of (df_cols df) col of
        None \<Rightarrow> st
      | Some src \<Rightarrow>
          let outs = map (kind_cell k lib (parsing pol)) (vals src) in
          (set_col df col \<lparr>sdtype = kind_dtype k (parsing pol), vals = map fst outs\<rparr>,
           rows_to_drop @ map fst (filter (\<lambda>(l, out, drp, f). drp) (zip (df_index df) outs)),
           evs @ by_label (df_index df)
                   (map (\<lambda>(val, rid, out, drp, f).
                           case f of None \<Rightarrow> []
                           | Some rsn \<Rightarrow> [parsing_failure_event lib rid col val rsn
                                           (kind_section k) ts])
                      (zip (vals src) (zip rids outs)))))"

definition apply_parsing ::
  "pylib \<Rightarrow> policy \<Rightarrow> string \<Rightarrow> dataframe \<Rightarrow> error + dataframe \<times> event list" where
  "apply_parsing lib pol ts df =
     (if \<not> has_col df ''_row_id'' then Inl (ValueError ''_row_id'')
      else
        case foldl (parse_column lib pol ts (row_ids df)) (df, [], []) (parse_targets pol df) of
          (df1, rows_to_drop, evs) \<Rightarrow>
            if rows_to_drop = [] then Inr (df1, evs)
            else Inr (filter_rows (map (\<lambda>l. l \<notin> set rows_to_drop) (df_index df1)) df1,
                      evs @ map (\<lambda>l. row_dropped_event
                                        (case map_of (zip (df_index df) (row_ids df)) l of
                                           Some rid \<Rightarrow> rid | None \<Rightarrow> Null)
                                        ''parsing_on_failure_drop_row''
                                        ''parsing.on_failure.drop_row'' ts)
                              (sort (remdups rows_to_drop))))"

section \<open>Readiness scoring (src/ira/scoring/readiness.py)\<close>

text \<open>
  A profile is the dictionary built by the profiler. Python floats are modelled by exact
  rationals: sums, products and quotients are the mathematical ones, and the rounding
  of IEEE doubles is not part of the model. A key that \<open>dict.get\<close> may find absent is an
  \<open>option\<close>: \<open>None\<close> stands for the absent key (and, for \<open>invalid_type_pct\<close> and
  \<open>pk_dupe_count\<close>, also for the stored value \<open>None\<close>, which the code treats alike).
\<close>

record col_stats =
  role :: "string option"
  effective_missing_pct :: "rat option"
  invalid_type_pct :: "rat option"
  is_mixed_type :: bool

record profile =
  columns :: "(string \<times> col_stats) list"
  row_count :: "int option"
  exact_row_dupe_count :: "int option"
  pk_dupe_count :: "int option"

record readiness =
  score :: rat
  completeness :: rat
  validity :: rat
  uniqueness :: rat
  consistency :: rat

text \<open>\<open>round(x, 2)\<close>: to the nearest multiple of 1/100, a tie going to the even one.\<close>

definition py_round2 :: "rat \<Rightarrow> rat" where
  "py_round2 x =
     (let s = x * 100; f = \<lfloor>s\<rfloor>; d = s - of_int f
      in of_int (if d < 1 / 2 then f
                 else if 1 / 2 < d then f + 1
                 else if even f then f else f + 1) / 100)"

text \<open>\<open>stats.get("effective_missing_pct", 0.0)\<close>.\<close>

definition get_missing :: "col_stats \<Rightarrow> rat" where
  "get_missing stats = (case effective_missing_pct stats of None \<Rightarrow> 0 | Some m \<Rightarrow> m)"

text \<open>The first loop: the accumulators are (comp_total_weight, comp_weighted_sum).\<close>

fun completeness_loop :: "(string \<times> col_stats) list \<Rightarrow> rat \<times> rat \<Rightarrow> rat \<times> rat" where
  "completeness_loop [] acc = acc"
| "completeness_loop ((col, stats) # rest) (comp_total_weight, comp_weighted_sum) =
     (let weight = (if role stats = Some ''critical'' then 2 else 1);
          success_rate = 1 - get_missing stats
      in completeness_loop rest
           (comp_total_weight + weight, comp_weighted_sum + success_rate * weight))"

text \<open>The second loop: the accumulators are (valid_total_weight, valid_sum).\<close>

fun validity_loop :: "(string \<times> col_stats) list \<Rightarrow> nat \<times> rat \<Rightarrow> nat \<times> rat" where
  "validity_loop [] acc = acc"
| "validity_loop ((col, stats) # rest) (valid_total_weight, valid_sum) =
     (case invalid_type_pct stats of
        None \<Rightarrow> validity_loop rest (valid_total_weight, valid_sum)
      | Some v \<Rightarrow> validity_loop rest (valid_total_weight + 1, valid_sum + (1 - v)))"

text \<open>
  The penalty loop, with its two \<open>break\<close>s. \<open>stats.get("invalid_type_pct", 0) and ... > 0\<close>
  is false for an absent key, for \<open>None\<close> and for 0.
\<close>

fun has_critical_issue :: "(string \<times> col_stats) list \<Rightarrow> bool" where
  "has_critical_issue [] = False"
| "has_critical_issue ((col, stats) # rest) =
     (if role stats = Some ''critical'' then
        (if 0 < get_missing stats then True
         else if (case invalid_type_pct stats of None \<Rightarrow> False | Some v \<Rightarrow> v \<noteq> 0 \<and> 0 < v)
           then True
         else has_critical_issue rest)
      else has_critical_issue rest)"

definition calculate_readiness_score :: "profile \<Rightarrow> readiness" where
  "calculate_readiness_score p =
     (let cols_stats = columns p;
          rc = (case row_count p of None \<Rightarrow> 0 | Some n \<Rightarrow> n)
      in if rc = 0 then
           \<lparr>score = 0, completeness = 0, validity = 0, uniqueness = 0, consistency = 0\<rparr>
         else
           let (comp_total_weight, comp_weighted_sum) = completeness_loop cols_stats (0, 0);
               completeness_score =
                 (if 0 < comp_total_weight then comp_weighted_sum / comp_total_weight else 1);
               (valid_total_weight, valid_sum) = validity_loop cols_stats (0, 0);
               validity_score =
                 (if 0 < valid_total_weight then valid_sum / of_nat valid_total_weight else 1);
               exact_dupe_pct =
                 of_int (case exact_row_dupe_count p of None \<Rightarrow> 0 | Some n \<Rightarrow> n) / of_int rc;
               uniqueness_score =
                 (case pk_dupe_count p of
                    Some pk_dupes_count \<Rightarrow>
                      1 - max exact_dupe_pct (of_int pk_dupes_count / of_int rc)
                  | None \<Rightarrow> 1 - exact_dupe_pct);
               mixed_count = length (filter (\<lambda>(col, stats). is_mixed_type stats) cols_stats);
               total_cols = length cols_stats;
               consistency_score =
                 (if 0 < total_cols then 1 - of_nat mixed_count / of_nat total_cols else 1);
               final_score =
                 completeness_score * 40 + validity_score * 30
                 + uniqueness_score * 20 + consistency_score * 10;
               final_score =
                 (if has_critical_issue cols_stats then final_score - 10 else final_score);
               final_score = max 0 (min 100 final_score)
           in \<lparr>score = py_round2 final_score,
               completeness = py_round2 (completeness_score * 40),
               validity = py_round2 (validity_score * 30),
               uniqueness = py_round2 (uniqueness_score * 20),
               consistency = py_round2 (consistency_score * 10)\<rparr>)"

subsection \<open>The score as the specification words it\<close>

text \<open>
  These definitions follow the specification's sentences, not the code: the weighted mean
  of (1 - effective-missing ratio) with critical columns counted twice; the mean of
  (1 - invalid-type ratio) over the columns that declare a target type; one minus the
  larger duplicate ratio; the share of columns that are not mixed-type. A mean over no
  column is 1.
\<close>

definition spec_weight :: "col_stats \<Rightarrow> rat" where
  "spec_weight stats = (if role stats = Some ''critical'' then 2 else 1)"

definition spec_completeness :: "profile \<Rightarrow> rat" where
  "spec_completeness p =
     (if columns p = [] then 1
      else (\<Sum>(c, s) \<leftarrow> columns p. spec_weight s * (1 - get_missing s))
           / (\<Sum>(c, s) \<leftarrow> columns p. spec_weight s))"

definition typed_ratios :: "profile \<Rightarrow> rat list" where
  "typed_ratios p = List.map_filter (\<lambda>(c, s). invalid_type_pct s) (columns p)"

definition spec_validity :: "profile \<Rightarrow> rat" where
  "spec_validity p =
     (if typed_ratios p = [] then 1
      else (\<Sum>v \<leftarrow> typed_ratios p. 1 - v) / of_nat (length (typed_ratios p)))"

definition spec_uniqueness :: "profile \<Rightarrow> rat" where
  "spec_uniqueness p =
     (let n = of_int (the (row_count p));
          exact = of_int (case exact_row_dupe_count p of None \<Rightarrow> 0 | Some k \<Rightarrow> k) / n
      in case pk_dupe_count p of
           None \<Rightarrow> 1 - exact
         | Some k \<Rightarrow> 1 - max exact (of_int k / n))"

definition spec_consistency :: "profile \<Rightarrow> rat" where
  "spec_consistency p =
     (if columns p = [] then 1
      else of_nat (length (filter (\<lambda>(c, s). \<not> is_mixed_type s) (columns p)))
           / of_nat (length (columns p)))"

definition critical_column_has_issue :: "profile \<Rightarrow> bool" where
  "critical_column_has_issue p =
     list_ex (\<lambda>(c, s). role s = Some ''critical'' \<and>
                (get_missing s \<noteq> 0 \<or> (case invalid_type_pct s of None \<Rightarrow> False | Some v \<Rightarrow> v \<noteq> 0)))
       (columns p)"

definition spec_score :: "profile \<Rightarrow> rat" where
  "spec_score p =
     py_round2 (max 0 (min 100
       (40 * spec_completeness p + 30 * spec_validity p
        + 20 * spec_uniqueness p + 10 * spec_consistency p
        - (if critical_column_has_issue p then 10 else 0))))"

text \<open>Every ratio of the profile is a ratio: not negative.\<close>

definition ratios_nonneg :: "profile \<Rightarrow> bool" where
  "ratios_nonneg p =
     list_all (\<lambda>(c, s). 0 \<le> get_missing s \<and>
                 (case invalid_type_pct s of None \<Rightarrow> True | Some v \<Rightarrow> 0 \<le> v))
       (columns p)"

text \<open>
  The profile of the readiness-bounds property: no missingness, no invalid value, no
  duplicate, no mixed-type column.
\<close>

definition perfect_profile :: "profile \<Rightarrow> bool" where
  "perfect_profile p =
     (list_all (\<lambda>(c, s). get_missing s = 0 \<and>
                  (case invalid_type_pct s of None \<Rightarrow> True | Some v \<Rightarrow> v = 0) \<and>
                  \<not> is_mixed_type s) (columns p)
      \<and> (case exact_row_dupe_count p of None \<Rightarrow> True | Some k \<Rightarrow> k = 0)
      \<and> (case pk_dupe_count p of None \<Rightarrow> True | Some k \<Rightarrow> k = 0))"

text \<open>The logger after a sequence of calls on a fresh one.\<close>

definition logger_after :: "audit_detail \<Rightarrow> call list \<Rightarrow> audit_logger" where
  "logger_after d calls = foldl do_call (new_logger d) calls"

text \<open>
  What holds of every logger: while it is open the file is open and holds no footer;
  once it is closed the file is closed and its last line is the only footer.
\<close>

definition logger_inv :: "audit_logger \<Rightarrow> bool" where
  "logger_inv L =
     (if opened L then \<not> file_closed L \<and> job_summary_count (file_lines L) = 0
      else file_closed L \<and> job_summary_count (file_lines L) = 1 \<and> file_lines L \<noteq> []
           \<and> line_type (last (file_lines L)) = Some ''job_summary'')"

text \<open>The events that \<open>log\<close> accepts: the four required keys are present.\<close>

definition accepted :: "event \<Rightarrow> bool" where
  "accepted e = (timestamp e \<noteq> None \<and> event_type e \<noteq> None \<and> reason e \<noteq> None
                 \<and> policy_section e \<noteq> None)"

fun logged_events :: "call list \<Rightarrow> event list" where
  "logged_events [] = []"
| "logged_events (Log e # cs) = (if accepted e then e # logged_events cs else logged_events cs)"
| "logged_events (c # cs) = logged_events cs"

text \<open>The events that name a column.\<close>

definition events_on :: "string \<Rightarrow> event list \<Rightarrow> event list" where
  "events_on col evs = filter (\<lambda>e. column e = Some col) evs"

text \<open>The column of a phase's result, and its events; nothing when the phase raised.\<close>

definition result_col :: "error + dataframe \<times> event list \<Rightarrow> string \<Rightarrow> series option" where
  "result_col r c = (case r of Inl e \<Rightarrow> None | Inr (d, es) \<Rightarrow> map_of (df_cols d) c)"

definition result_events :: "error + dataframe \<times> event list \<Rightarrow> event list" where
  "result_events r = (case r of Inl e \<Rightarrow> [] | Inr (d, es) \<Rightarrow> es)"

text \<open>
  The tables and policies of the repository's tests: a numeric column half missing under
  a ceiling of 0.25; a critical numeric column with gaps, the critical drop switched off;
  a protected column and a plain one, both with a constant to fill in.
\<close>

definition threshold_example_df :: dataframe where
  "threshold_example_df =
     \<lparr>df_index = [0, 1, 2, 3],
      df_cols = [(''_row_id'', \<lparr>sdtype = DInt, vals = [IntV 1, IntV 2, IntV 3, IntV 4]\<rparr>),
                 (''val'', \<lparr>sdtype = DFloat, vals = [FloatV 10, Null, Null, FloatV 40]\<rparr>)]\<rparr>"

definition threshold_example_policy :: policy where
  "threshold_example_policy =
     default_policy\<lparr>
       roles := \<lparr>critical_columns = [''_row_id''], protected_columns = []\<rparr>,
       parsing := (parsing default_policy)\<lparr>column_types := [(''val'', ''numeric'')]\<rparr>,
       missing_data := (missing_data default_policy)\<lparr>imp_numeric :=
         Some \<lparr>default_strategy = ''mean'', constants = [], allow_if_missing_pct_leq = 1 / 4\<rparr>\<rparr>\<rparr>"

definition critical_example_df :: dataframe where
  "critical_example_df =
     \<lparr>df_index = [0, 1, 2, 3],
      df_cols = [(''_row_id'', \<lparr>sdtype = DInt, vals = [IntV 1, IntV 2, IntV 3, IntV 4]\<rparr>),
                 (''x_num'', \<lparr>sdtype = DFloat, vals = [FloatV 1, Null, FloatV 3, Null]\<rparr>)]\<rparr>"

definition critical_example_policy :: policy where
  "critical_example_policy =
     default_policy\<lparr>
       roles := \<lparr>critical_columns = [''x_num''], protected_columns = []\<rparr>,
       parsing := (parsing default_policy)\<lparr>column_types := [(''x_num'', ''numeric'')]\<rparr>,
       missing_data := \<lparr>m_enabled = True, drop_if_missing_critical = False,
         imp_numeric = Some \<lparr>default_strategy = ''mean'', constants = [],
                              allow_if_missing_pct_leq = 3 / 5\<rparr>,
         imp_datetime = None, imp_categorical = None\<rparr>\<rparr>"

definition protected_example_df :: dataframe where
  "protected_example_df =
     \<lparr>df_index = [0, 1],
      df_cols = [(''_row_id'', \<lparr>sdtype = DInt, vals = [IntV 1, IntV 2]\<rparr>),
                 (''secret_note'', \<lparr>sdtype = DObject, vals = [Null, Str ''existing'']\<rparr>),
                 (''note'', \<lparr>sdtype = DObject, vals = [Null, Str ''existing'']\<rparr>)]\<rparr>"

definition protected_example_policy :: policy where
  "protected_example_policy =
     default_policy\<lparr>
       roles := \<lparr>critical_columns = [''_row_id''], protected_columns = [''secret_note'']\<rparr>,
       missing_data := (missing_data default_policy)\<lparr>imp_categorical :=
         Some \<lparr>default_strategy = ''constant'',
               constants = [(''secret_note'', Str ''FILL_ME''), (''note'', Str ''FILL_ME'')],
               allow_if_missing_pct_leq = 1\<rparr>\<rparr>\<rparr>"

section \<open>Proofs: readiness scoring\<close>

lemma py_round2_of_int_div: "py_round2 (of_int n) = of_int n"
proof -
  have "(of_int n :: rat) * 100 = of_int (n * 100)" by simp
  then show ?thesis
    unfolding py_round2_def Let_def by (simp del: of_int_mult)
qed

lemma py_round2_numerals:
  "py_round2 0 = 0" "py_round2 100 = 100" "py_round2 40 = 40"
  "py_round2 30 = 30" "py_round2 20 = 20" "py_round2 10 = 10"
  using py_round2_of_int_div [of 0] py_round2_of_int_div [of 100] py_round2_of_int_div [of 40]
    py_round2_of_int_div [of 30] py_round2_of_int_div [of 20] py_round2_of_int_div [of 10]
  by simp_all

lemma completeness_loop_sum:
  "completeness_loop cols (tw, ws) =
     (tw + (\<Sum>(c, s) \<leftarrow> cols. spec_weight s),
      ws + (\<Sum>(c, s) \<leftarrow> cols. spec_weight s * (1 - get_missing s)))"
  by (induction cols arbitrary: tw ws) (auto simp: spec_weight_def Let_def algebra_simps)

lemma validity_loop_sum:
  "validity_loop cols (n, vs) =
     (n + length (List.map_filter (\<lambda>(c, s). invalid_type_pct s) cols),
      vs + (\<Sum>v \<leftarrow> List.map_filter (\<lambda>(c, s). invalid_type_pct s) cols. 1 - v))"
  by (induction cols arbitrary: n vs) (auto simp: List.map_filter_simps split: option.splits)

lemma weight_sum_pos:
  "cols \<noteq> [] \<Longrightarrow> 0 < (\<Sum>(c, s) \<leftarrow> cols. spec_weight s)"
proof (induction cols)
  case Nil then show ?case by simp
next
  case (Cons a cols)
  have "0 \<le> (\<Sum>(c, s) \<leftarrow> cols. spec_weight s)"
    by (rule sum_list_nonneg) (auto simp: spec_weight_def)
  moreover have "0 < (case a of (c, s) \<Rightarrow> spec_weight s)"
    by (cases a) (simp add: spec_weight_def)
  ultimately show ?case by simp
qed

lemma has_critical_issue_spec:
  "list_all (\<lambda>(c, s). 0 \<le> get_missing s \<and>
                 (case invalid_type_pct s of None \<Rightarrow> True | Some v \<Rightarrow> 0 \<le> v)) cols \<Longrightarrow>
   has_critical_issue cols =
     list_ex (\<lambda>(c, s). role s = Some ''critical'' \<and>
                (get_missing s \<noteq> 0 \<or> (case invalid_type_pct s of None \<Rightarrow> False | Some v \<Rightarrow> v \<noteq> 0)))
       cols"
proof (induction cols)
  case Nil
  then show ?case by simp
next
  case (Cons a cols)
  obtain c s where a: "a = (c, s)" by (cases a)
  from Cons.prems a have m: "0 \<le> get_missing s"
    and v: "case invalid_type_pct s of None \<Rightarrow> True | Some v \<Rightarrow> 0 \<le> v"
    and rest: "list_all (\<lambda>(c, s). 0 \<le> get_missing s \<and>
                 (case invalid_type_pct s of None \<Rightarrow> True | Some v \<Rightarrow> 0 \<le> v)) cols"
    by simp_all
  note ih = Cons.IH [OF rest]
  from m have m': "(0 < get_missing s) = (get_missing s \<noteq> 0)" by auto
  show ?case
  proof (cases "invalid_type_pct s")
    case None
    then show ?thesis using a ih m' by simp
  next
    case (Some x)
    with v have "0 \<le> x" by simp
    then have "(x \<noteq> 0 \<and> 0 < x) = (x \<noteq> 0)" by auto
    then show ?thesis using a ih m' Some by simp
  qed
qed

lemma not_mixed_count:
  "length (filter (\<lambda>(c, s). \<not> is_mixed_type s) cols)
   = length cols - length (filter (\<lambda>(c, s). is_mixed_type s) cols)"
proof (induction cols)
  case Nil
  then show ?case by simp
next
  case (Cons a cols)
  have "length (filter (\<lambda>(c, s). is_mixed_type s) cols) \<le> length cols" by simp
  then show ?case using Cons by (cases a) (simp_all add: Suc_diff_le)
qed

lemma consistency_eq:
  "cols \<noteq> [] \<Longrightarrow>
   1 - of_nat (length (filter (\<lambda>(c, s). is_mixed_type s) cols)) / (of_nat (length cols) :: rat)
   = of_nat (length (filter (\<lambda>(c, s). \<not> is_mixed_type s) cols)) / of_nat (length cols)"
proof -
  assume ne: "cols \<noteq> []"
  have le: "length (filter (\<lambda>(c, s). is_mixed_type s) cols) \<le> length cols" by simp
  show ?thesis
    using ne by (simp add: not_mixed_count of_nat_diff [OF le] field_simps)
qed

lemma readiness_formula:
  assumes rc: "row_count p = Some n" "n \<noteq> 0" and nn: "ratios_nonneg p"
  shows "calculate_readiness_score p =
       \<lparr>score = spec_score p,
        completeness = py_round2 (40 * spec_completeness p),
        validity = py_round2 (30 * spec_validity p),
        uniqueness = py_round2 (20 * spec_uniqueness p),
        consistency = py_round2 (10 * spec_consistency p)\<rparr>"
proof -
  define W where "W = fst (completeness_loop (columns p) (0, 0))"
  define S where "S = snd (completeness_loop (columns p) (0, 0))"
  define K where "K = fst (validity_loop (columns p) (0, 0))"
  define V where "V = snd (validity_loop (columns p) (0, 0))"
  have cl: "completeness_loop (columns p) (0, 0) = (W, S)" by (simp add: W_def S_def)
  have vl: "validity_loop (columns p) (0, 0) = (K, V)" by (simp add: K_def V_def)
  have c: "(if 0 < W then S / W else 1) = spec_completeness p"
    using weight_sum_pos [of "columns p"]
    by (simp add: W_def S_def completeness_loop_sum spec_completeness_def)
  have v: "(if 0 < K then V / of_nat K else 1) = spec_validity p"
    by (simp add: K_def V_def validity_loop_sum spec_validity_def typed_ratios_def)
  have u: "(case pk_dupe_count p of
              Some pk \<Rightarrow> 1 - max (of_int (case exact_row_dupe_count p of None \<Rightarrow> 0 | Some n \<Rightarrow> n) / of_int n)
                                 (of_int pk / of_int n)
            | None \<Rightarrow> 1 - of_int (case exact_row_dupe_count p of None \<Rightarrow> 0 | Some n \<Rightarrow> n) / of_int n)
           = spec_uniqueness p"
    using rc by (simp add: spec_uniqueness_def Let_def split: option.splits)
  have k: "(if 0 < length (columns p)
            then 1 - of_nat (length (filter (\<lambda>(col, stats). is_mixed_type stats) (columns p)))
                     / of_nat (length (columns p))
            else 1) = spec_consistency p"
    using consistency_eq [of "columns p"] by (simp add: spec_consistency_def)
  have h: "has_critical_issue (columns p) = critical_column_has_issue p"
    using nn has_critical_issue_spec [of "columns p"]
    by (simp add: ratios_nonneg_def critical_column_has_issue_def)
  show ?thesis
    unfolding calculate_readiness_score_def Let_def rc option.case cl vl prod.case c v u k h
      spec_score_def
    using rc(2) by (simp add: mult.commute)
qed

lemma sum_list_weights_perfect:
  "list_all (\<lambda>(c, s). get_missing s = 0 \<and> Q c s) cols \<Longrightarrow>
   (\<Sum>(c, s) \<leftarrow> cols. spec_weight s * (1 - get_missing s)) = (\<Sum>(c, s) \<leftarrow> cols. spec_weight s)"
  by (induction cols) auto

lemma perfect_completeness: "perfect_profile p \<Longrightarrow> spec_completeness p = 1"
proof -
  assume pp: "perfect_profile p"
  then have "(\<Sum>(c, s) \<leftarrow> columns p. spec_weight s * (1 - get_missing s))
             = (\<Sum>(c, s) \<leftarrow> columns p. spec_weight s)"
    unfolding perfect_profile_def by (intro sum_list_weights_perfect) (erule conjE, assumption)
  then show ?thesis
    using weight_sum_pos [of "columns p"] by (cases "columns p = []") (simp_all add: spec_completeness_def)
qed

lemma typed_ratios_perfect:
  "list_all (\<lambda>(c, s). P c s \<and> (case invalid_type_pct s of None \<Rightarrow> True | Some v \<Rightarrow> v = 0) \<and> Q c s) cols \<Longrightarrow>
   (\<Sum>v \<leftarrow> List.map_filter (\<lambda>(c, s). invalid_type_pct s) cols. 1 - v)
   = of_nat (length (List.map_filter (\<lambda>(c, s). invalid_type_pct s) cols))"
  by (induction cols) (auto simp: List.map_filter_simps split: option.splits)

lemma perfect_validity: "perfect_profile p \<Longrightarrow> spec_validity p = 1"
proof -
  assume pp: "perfect_profile p"
  then have "(\<Sum>v \<leftarrow> typed_ratios p. 1 - v) = of_nat (length (typed_ratios p))"
    unfolding perfect_profile_def typed_ratios_def
    by (intro typed_ratios_perfect) (erule conjE, assumption)
  then show ?thesis by (simp add: spec_validity_def)
qed

lemma perfect_uniqueness: "perfect_profile p \<Longrightarrow> spec_uniqueness p = 1"
  by (auto simp: perfect_profile_def spec_uniqueness_def Let_def split: option.splits)

lemma filter_not_mixed_perfect:
  "list_all (\<lambda>(c, s). P c s \<and> Q c s \<and> \<not> is_mixed_type s) cols \<Longrightarrow>
   filter (\<lambda>(c, s). \<not> is_mixed_type s) cols = cols"
  by (induction cols) auto

lemma perfect_consistency: "perfect_profile p \<Longrightarrow> spec_consistency p = 1"
proof -
  assume pp: "perfect_profile p"
  then have "filter (\<lambda>(c, s). \<not> is_mixed_type s) (columns p) = columns p"
    unfolding perfect_profile_def by (intro filter_not_mixed_perfect) (erule conjE, assumption)
  then show ?thesis by (simp add: spec_consistency_def)
qed

lemma perfect_no_issue: "perfect_profile p \<Longrightarrow> \<not> critical_column_has_issue p"
proof -
  have "list_all (\<lambda>(c, s). get_missing s = 0 \<and>
                  (case invalid_type_pct s of None \<Rightarrow> True | Some v \<Rightarrow> v = 0) \<and>
                  \<not> is_mixed_type s) cols \<Longrightarrow>
        \<not> list_ex (\<lambda>(c, s). role s = Some ''critical'' \<and>
                (get_missing s \<noteq> 0 \<or> (case invalid_type_pct s of None \<Rightarrow> False | Some v \<Rightarrow> v \<noteq> 0))) cols"
    for cols :: "(string \<times> col_stats) list"
    by (induction cols) (auto split: option.splits)
  then show "perfect_profile p \<Longrightarrow> \<not> critical_column_has_issue p"
    by (simp add: perfect_profile_def critical_column_has_issue_def)
qed

lemma perfect_nonneg: "perfect_profile p \<Longrightarrow> ratios_nonneg p"
proof -
  have "list_all (\<lambda>(c, s). get_missing s = 0 \<and>
                  (case invalid_type_pct s of None \<Rightarrow> True | Some v \<Rightarrow> v = 0) \<and>
                  \<not> is_mixed_type s) cols \<Longrightarrow>
        list_all (\<lambda>(c, s). 0 \<le> get_missing s \<and>
                 (case invalid_type_pct s of None \<Rightarrow> True | Some v \<Rightarrow> 0 \<le> v)) cols"
    for cols :: "(string \<times> col_stats) list"
    by (induction cols) (auto split: option.splits)
  then show "perfect_profile p \<Longrightarrow> ratios_nonneg p"
    by (simp add: perfect_profile_def ratios_nonneg_def)
qed

text \<open>
  C7: for a profile with at least one row the result is the weighted formula of the
  specification: 40 completeness + 30 validity + 20 uniqueness + 10 consistency, less 10
  when a critical column has a nonzero effective-missing or invalid-type ratio, clamped to
  [0, 100] and rounded to two decimals; each part of the breakdown is its weighted
  component rounded alone. A profile with no missingness, no invalid value, no duplicate
  and no mixed-type column scores 100 with breakdown (40, 30, 20, 10).
\<close>

theorem readiness_score_formula:
  assumes "row_count p = Some n" and "n \<noteq> 0" and "ratios_nonneg p"
  shows "calculate_readiness_score p =
       \<lparr>score = spec_score p,
        completeness = py_round2 (40 * spec_completeness p),
        validity = py_round2 (30 * spec_validity p),
        uniqueness = py_round2 (20 * spec_uniqueness p),
        consistency = py_round2 (10 * spec_consistency p)\<rparr>
     \<and> (perfect_profile p \<longrightarrow>
        calculate_readiness_score p =
          \<lparr>score = 100, completeness = 40, validity = 30, uniqueness = 20, consistency = 10\<rparr>)"
proof -
  note f = readiness_formula [OF assms]
  have "calculate_readiness_score p =
          \<lparr>score = 100, completeness = 40, validity = 30, uniqueness = 20, consistency = 10\<rparr>"
    if pp: "perfect_profile p"
    unfolding f spec_score_def
    using perfect_completeness [OF pp] perfect_validity [OF pp] perfect_uniqueness [OF pp]
      perfect_consistency [OF pp] perfect_no_issue [OF pp]
    by (simp add: py_round2_numerals)
  with f show ?thesis by simp
qed


theorem readiness_score_formula_witness:
  "ratios_nonneg
     \<lparr>columns = [(''col1'', \<lparr>role = Some ''critical'', effective_missing_pct = Some 0,
                            invalid_type_pct = Some 0, is_mixed_type = False\<rparr>),
                 (''col2'', \<lparr>role = Some ''none'', effective_missing_pct = Some 0,
                            invalid_type_pct = Some 0, is_mixed_type = False\<rparr>)],
      row_count = Some 100, exact_row_dupe_count = Some 0, pk_dupe_count = Some 0\<rparr>
   \<and> perfect_profile
     \<lparr>columns = [(''col1'', \<lparr>role = Some ''critical'', effective_missing_pct = Some 0,
                            invalid_type_pct = Some 0, is_mixed_type = False\<rparr>),
                 (''col2'', \<lparr>role = Some ''none'', effective_missing_pct = Some 0,
                            invalid_type_pct = Some 0, is_mixed_type = False\<rparr>)],
      row_count = Some 100, exact_row_dupe_count = Some 0, pk_dupe_count = Some 0\<rparr>
   \<and> calculate_readiness_score
     \<lparr>columns = [(''col1'', \<lparr>role = Some ''critical'', effective_missing_pct = Some 0,
                            invalid_type_pct = Some 0, is_mixed_type = False\<rparr>),
                 (''col2'', \<lparr>role = Some ''none'', effective_missing_pct = Some 0,
                            invalid_type_pct = Some 0, is_mixed_type = False\<rparr>)],
      row_count = Some 100, exact_row_dupe_count = Some 0, pk_dupe_count = Some 0\<rparr>
     = \<lparr>score = 100, completeness = 40, validity = 30, uniqueness = 20, consistency = 10\<rparr>"
proof -
  let ?p = "\<lparr>columns = [(''col1'', \<lparr>role = Some ''critical'', effective_missing_pct = Some 0,
                            invalid_type_pct = Some 0, is_mixed_type = False\<rparr>),
                 (''col2'', \<lparr>role = Some ''none'', effective_missing_pct = Some 0,
                            invalid_type_pct = Some 0, is_mixed_type = False\<rparr>)],
      row_count = Some (100::int), exact_row_dupe_count = Some 0, pk_dupe_count = Some 0\<rparr>"
  have nn: "ratios_nonneg ?p" by (simp add: ratios_nonneg_def get_missing_def)
  have pp: "perfect_profile ?p" by (simp add: perfect_profile_def get_missing_def)
  have rc: "row_count ?p = Some 100" by simp
  have nz: "(100::int) \<noteq> 0" by simp
  from readiness_score_formula [OF rc nz nn] pp nn show ?thesis by blast
qed

text \<open>
  The weighting example of the repository's tests: a critical column half missing beside a
  complete one gives completeness 26.67 and, with the penalty, the score 76.67.
\<close>

lemma readiness_weighting_example:
  "calculate_readiness_score
     \<lparr>columns = [(''col1'', \<lparr>role = Some ''critical'', effective_missing_pct = Some (1 / 2),
                            invalid_type_pct = Some 0, is_mixed_type = False\<rparr>),
                 (''col2'', \<lparr>role = Some ''none'', effective_missing_pct = Some 0,
                            invalid_type_pct = Some 0, is_mixed_type = False\<rparr>)],
      row_count = Some 100, exact_row_dupe_count = Some 0, pk_dupe_count = None\<rparr>
   = \<lparr>score = 7667 / 100, completeness = 2667 / 100, validity = 30, uniqueness = 20,
      consistency = 10\<rparr>"
  by code_simp

text \<open>C10: a profile whose row count is 0 or absent scores zero in every part.\<close>

theorem empty_profile_scores_zero:
  "row_count p = None \<or> row_count p = Some 0 \<Longrightarrow>
   calculate_readiness_score p =
     \<lparr>score = 0, completeness = 0, validity = 0, uniqueness = 0, consistency = 0\<rparr>"
  by (auto simp: calculate_readiness_score_def)

theorem empty_profile_scores_zero_witness:
  "calculate_readiness_score
     \<lparr>columns = [(''a'', \<lparr>role = Some ''critical'', effective_missing_pct = Some 0,
                          invalid_type_pct = Some 0, is_mixed_type = False\<rparr>)],
      row_count = Some 0, exact_row_dupe_count = Some 0, pk_dupe_count = None\<rparr>
   = \<lparr>score = 0, completeness = 0, validity = 0, uniqueness = 0, consistency = 0\<rparr>
   \<and> calculate_readiness_score
     \<lparr>columns = [], row_count = None, exact_row_dupe_count = None, pk_dupe_count = None\<rparr>
   = \<lparr>score = 0, completeness = 0, validity = 0, uniqueness = 0, consistency = 0\<rparr>"
  using empty_profile_scores_zero
    [of "\<lparr>columns = [(''a'', \<lparr>role = Some ''critical'', effective_missing_pct = Some 0,
                          invalid_type_pct = Some 0, is_mixed_type = False\<rparr>)],
      row_count = Some 0, exact_row_dupe_count = Some 0, pk_dupe_count = None\<rparr>"]
    empty_profile_scores_zero
    [of "\<lparr>columns = [], row_count = None, exact_row_dupe_count = None, pk_dupe_count = None\<rparr>"]
  by simp

section \<open>Proofs: the audit logger\<close>

lemma write_line_fields [simp]:
  "detail (write_line L l) = detail L" "opened (write_line L l) = opened L"
  "file_closed (write_line L l) = file_closed L"
  "summary_counts (write_line L l) = summary_counts L"
  "summary_samples (write_line L l) = summary_samples L"
  "job_ctx (write_line L l) = job_ctx L"
  "ts_start (write_line L l) = ts_start L" "ts_end (write_line L l) = ts_end L"
  "file_lines (write_line L l) = (if file_closed L then file_lines L else file_lines L @ [l])"
  by (simp_all add: write_line_def)

lemma foldl_write_line_fields [simp]:
  "detail (foldl write_line L ls) = detail L" "opened (foldl write_line L ls) = opened L"
  "file_closed (foldl write_line L ls) = file_closed L"
  "summary_counts (foldl write_line L ls) = summary_counts L"
  "summary_samples (foldl write_line L ls) = summary_samples L"
  "job_ctx (foldl write_line L ls) = job_ctx L"
  "ts_start (foldl write_line L ls) = ts_start L" "ts_end (foldl write_line L ls) = ts_end L"
  by (induction ls arbitrary: L) simp_all

lemma foldl_write_line_lines:
  "\<not> file_closed L \<Longrightarrow> file_lines (foldl write_line L ls) = file_lines L @ ls"
  by (induction ls arbitrary: L) simp_all

lemma make_footer_foldl_write_line [simp]:
  "make_footer (foldl write_line L ls) = make_footer L"
  by (simp add: make_footer_def)

lemma close_lines:
  "opened L \<Longrightarrow> \<not> file_closed L \<Longrightarrow>
   file_lines (close L) =
     file_lines L @ (if detail L = Summary then summary_records L else []) @ [JobSummary (make_footer L)]"
  by (simp add: close_def Let_def foldl_write_line_lines)

lemma close_flags: "opened (close L) = False"
  by (simp add: close_def Let_def)

lemma close_not_opened: "\<not> opened L \<Longrightarrow> close L = L"
  by (simp add: close_def)

lemma close_twice: "close (close L) = close L"
  by (rule close_not_opened) (simp add: close_flags)

lemma job_summary_count_append [simp]:
  "job_summary_count (xs @ ys) = job_summary_count xs + job_summary_count ys"
  by (simp add: job_summary_count_def)

lemma job_summary_count_summary_records [simp]: "job_summary_count (summary_records L) = 0"
proof -
  have "\<forall>l \<in> set (summary_records L). line_type l \<noteq> Some ''job_summary''"
    by (auto simp: summary_records_def)
  then show ?thesis
    unfolding job_summary_count_def by (simp add: filter_False)
qed

lemma job_summary_count_simps [simp]:
  "job_summary_count [] = 0" "job_summary_count [JobSummary f] = 1"
  "job_summary_count [EventLine e] = 0"
  by (simp_all add: job_summary_count_def)

lemma inv_new: "logger_inv (new_logger d)"
  by (simp add: logger_inv_def new_logger_def)

lemma inv_close: "logger_inv L \<Longrightarrow> logger_inv (close L)"
proof (cases "opened L")
  case True
  assume "logger_inv L"
  with True have nc: "\<not> file_closed L" and z: "job_summary_count (file_lines L) = 0"
    by (simp_all add: logger_inv_def)
  have fc: "file_closed (close L)" using True by (simp add: close_def Let_def)
  show ?thesis
    unfolding logger_inv_def close_flags using fc z
    by (simp add: close_lines [OF True nc])
next
  case False
  assume "logger_inv L"
  then show ?thesis using False by (simp add: close_not_opened)
qed

lemma aggregate_fields [simp]:
  "opened (aggregate L e) = opened L" "file_closed (aggregate L e) = file_closed L"
  "file_lines (aggregate L e) = file_lines L" "detail (aggregate L e) = detail L"
  by (simp_all add: aggregate_def)

lemma log_fields:
  "logger_log L e = Inr L' \<Longrightarrow>
   opened L' = opened L \<and> file_closed L' = file_closed L \<and> detail L' = detail L \<and>
   file_lines L' = (if detail L = Detailed \<and> \<not> file_closed L then file_lines L @ [EventLine e]
                    else file_lines L)"
  unfolding logger_log_def Let_def
  by (cases "ts_start L = None"; cases "detail L"; cases "file_closed L"; auto split: if_splits)

lemma inv_log: "logger_inv L \<Longrightarrow> logger_log L e = Inr L' \<Longrightarrow> logger_inv L'"
proof -
  assume i: "logger_inv L" and l: "logger_log L e = Inr L'"
  note f = log_fields [OF l]
  show ?thesis
  proof (cases "opened L")
    case True
    with i f show ?thesis by (simp add: logger_inv_def)
  next
    case False
    with i f show ?thesis by (simp add: logger_inv_def)
  qed
qed

lemma inv_do_call: "logger_inv L \<Longrightarrow> logger_inv (do_call L c)"
proof (cases c)
  case (Log e)
  assume "logger_inv L"
  then show ?thesis using Log inv_log [of L e] by (cases "logger_log L e") simp_all
next
  case (SetContext k v)
  assume "logger_inv L"
  then show ?thesis using SetContext by (simp add: logger_inv_def set_context_def)
next
  case Close
  assume "logger_inv L"
  then show ?thesis using Close by (simp add: inv_close)
qed

lemma inv_foldl: "logger_inv L \<Longrightarrow> logger_inv (foldl do_call L calls)"
proof (induction calls arbitrary: L)
  case Nil
  then show ?case by simp
next
  case (Cons c calls)
  from Cons.prems have "logger_inv (do_call L c)" by (rule inv_do_call)
  then have "logger_inv (foldl do_call (do_call L c) calls)" by (rule Cons.IH)
  then show ?case by simp
qed

lemma inv_logger_after: "logger_inv (logger_after d calls)"
  unfolding logger_after_def by (rule inv_foldl) (rule inv_new)

lemma opened_do_call: "c \<noteq> Close \<Longrightarrow> opened (do_call L c) = opened L"
proof (cases c)
  case (Log e)
  show ?thesis
  proof (cases "logger_log L e")
    case (Inl a)
    then show ?thesis using Log by simp
  next
    case (Inr L')
    from log_fields [OF Inr] show ?thesis using Log Inr by simp
  qed
next
  case (SetContext k v)
  then show ?thesis by (simp add: set_context_def)
next
  case Close
  assume "c \<noteq> Close"
  with Close show ?thesis by simp
qed

lemma detail_close: "detail (close L) = detail L"
  by (cases "opened L"; cases "file_closed L"; cases "detail L") (simp_all add: close_def Let_def)

lemma detail_do_call: "detail (do_call L c) = detail L"
proof (cases c)
  case (Log e)
  show ?thesis
  proof (cases "logger_log L e")
    case (Inl a)
    then show ?thesis using Log by simp
  next
    case (Inr L')
    from log_fields [OF Inr] show ?thesis using Log Inr by simp
  qed
next
  case (SetContext k v)
  then show ?thesis by (simp add: set_context_def)
next
  case Close
  then show ?thesis by (simp add: detail_close)
qed

lemma opened_foldl: "Close \<notin> set calls \<Longrightarrow> opened (foldl do_call L calls) = opened L"
proof (induction calls arbitrary: L)
  case Nil
  then show ?case by simp
next
  case (Cons c calls)
  then have "c \<noteq> Close" and "Close \<notin> set calls" by auto
  then show ?case using Cons.IH [of "do_call L c"] opened_do_call [of c L] by simp
qed

lemma detail_foldl: "detail (foldl do_call L calls) = detail L"
proof (induction calls arbitrary: L)
  case Nil
  then show ?case by simp
next
  case (Cons c calls)
  show ?case using Cons.IH [of "do_call L c"] detail_do_call [of L c] by simp
qed

lemma footer_loop_touched:
  "footer_loop xs (t, b, tc) = (t', b', tc') \<Longrightarrow> distinct tc \<Longrightarrow>
   distinct tc' \<and>
   set tc' = set tc \<union> ({col. \<exists>etype rsn n. ((etype, col, rsn), n) \<in> set xs} - {[], ''__row__''})"
proof (induction xs arbitrary: t b tc)
  case Nil
  then show ?case by simp
next
  case (Cons x xs)
  obtain etype col rsn n where x: "x = ((etype, col, rsn), n)" by (cases x) auto
  from Cons.prems(1) x obtain t1 b1 where
    rec: "footer_loop xs (t1, b1, if col \<noteq> [] \<and> col \<noteq> ''__row__'' then List.insert col tc else tc)
          = (t', b', tc')"
    by simp
  have d: "distinct (if col \<noteq> [] \<and> col \<noteq> ''__row__'' then List.insert col tc else tc)"
    using Cons.prems(2) by simp
  from Cons.IH [OF rec d] show ?case using x by auto
qed

lemma footer_loop_total:
  "footer_loop xs (t, b, tc) = (t', b', tc') \<Longrightarrow> t' = t + sum_list (map snd xs)"
proof (induction xs arbitrary: t b tc)
  case Nil
  then show ?case by simp
next
  case (Cons x xs)
  obtain etype col rsn n where x: "x = ((etype, col, rsn), n)" by (cases x) auto
  from Cons.prems x obtain b1 tc1 where rec: "footer_loop xs (t + n, b1, tc1) = (t', b', tc')"
    by simp
  from Cons.IH [OF rec] show ?case using x by simp
qed

lemma unique_columns_touched_card:
  "unique_columns_touched (make_footer L) = card (touched_column_set L)"
proof -
  obtain t b tc where fl: "footer_loop (summary_counts L) (0, [], []) = (t, b, tc)"
    by (cases "footer_loop (summary_counts L) (0, [], [])") auto
  from footer_loop_touched [OF fl] have "distinct tc" and "set tc = touched_column_set L"
    by (simp_all add: touched_column_set_def)
  then have "length tc = card (touched_column_set L)"
    using distinct_card by fastforce
  then show ?thesis using fl by (simp add: make_footer_def)
qed

lemma total_events_sum:
  "total_events (make_footer L) = sum_list (map snd (summary_counts L))"
proof -
  obtain t b tc where fl: "footer_loop (summary_counts L) (0, [], []) = (t, b, tc)"
    by (cases "footer_loop (summary_counts L) (0, [], [])") auto
  from footer_loop_total [OF fl] show ?thesis using fl by (simp add: make_footer_def)
qed

text \<open>
  C6: whatever calls were made on a logger since it was created, once it is closed the
  stream holds exactly one \<open>job_summary\<close> record and that record is the last line, in
  either mode; closing again changes nothing (and \<open>close\<close> has no path that raises);
  the footer's \<open>unique_columns_touched\<close> is the number of distinct column names of the
  logged events other than the empty name and \<open>__row__\<close>. When the logger was never
  closed before, closing appends the sorted aggregates (summary mode only) and then the
  footer.
\<close>

theorem audit_footer_contract:
  "job_summary_count (file_lines (close (logger_after d calls))) = 1
   \<and> line_type (last (file_lines (close (logger_after d calls)))) = Some ''job_summary''
   \<and> close (close (logger_after d calls)) = close (logger_after d calls)
   \<and> unique_columns_touched (make_footer (logger_after d calls))
       = card (touched_column_set (logger_after d calls))
   \<and> ''__row__'' \<notin> touched_column_set (logger_after d calls)
   \<and> (Close \<notin> set calls \<longrightarrow>
        file_lines (close (logger_after d calls)) =
          file_lines (logger_after d calls)
          @ (if d = Summary then summary_records (logger_after d calls) else [])
          @ [JobSummary (make_footer (logger_after d calls))])"
proof -
  let ?L = "logger_after d calls"
  have "logger_inv (close ?L)" by (rule inv_close) (rule inv_logger_after)
  then have a: "job_summary_count (file_lines (close ?L)) = 1"
    and b: "line_type (last (file_lines (close ?L))) = Some ''job_summary''"
    by (simp_all add: logger_inv_def close_flags)
  have c: "file_lines (close ?L) =
          file_lines ?L @ (if d = Summary then summary_records ?L else []) @ [JobSummary (make_footer ?L)]"
    if nc: "Close \<notin> set calls"
  proof -
    have op: "opened ?L" using nc by (simp add: logger_after_def opened_foldl new_logger_def)
    with inv_logger_after [of d calls] have "\<not> file_closed ?L" by (simp add: logger_inv_def)
    from close_lines [OF op this] show ?thesis
      by (simp add: logger_after_def detail_foldl new_logger_def)
  qed
  have e: "''__row__'' \<notin> touched_column_set ?L" by (simp add: touched_column_set_def)
  show ?thesis
    using a b c e by (simp add: close_twice unique_columns_touched_card)
qed

lemma sum_bump: "sum_list (map snd (bump k xs)) = sum_list (map snd xs) + 1"
  by (induction xs) auto

lemma counts_log:
  "logger_log L e = Inr L' \<Longrightarrow> summary_counts L' = bump (event_key e) (summary_counts L)"
  unfolding logger_log_def Let_def
  by (cases "ts_start L = None"; cases "detail L"; cases "file_closed L";
      auto simp: aggregate_def split: if_splits)

lemma log_accepted: "(\<exists>L'. logger_log L e = Inr L') = accepted e"
  by (auto simp: logger_log_def accepted_def Let_def)

lemma counts_close: "summary_counts (close L) = summary_counts L"
  by (cases "opened L"; cases "file_closed L"; cases "detail L") (simp_all add: close_def Let_def)

lemma total_do_call:
  "sum_list (map snd (summary_counts (do_call L c)))
   = sum_list (map snd (summary_counts L)) + length (logged_events [c])"
proof (cases c)
  case (Log e)
  show ?thesis
  proof (cases "logger_log L e")
    case (Inl a)
    with log_accepted [of L e] have "\<not> accepted e" by auto
    then show ?thesis using Log Inl by simp
  next
    case (Inr L')
    with log_accepted [of L e] have "accepted e" by auto
    then show ?thesis using Log Inr counts_log [OF Inr] by (simp add: sum_bump)
  qed
next
  case (SetContext k v)
  then show ?thesis by (simp add: set_context_def)
next
  case Close
  then show ?thesis by (simp add: counts_close)
qed

lemma logged_events_Cons: "logged_events (c # cs) = logged_events [c] @ logged_events cs"
  by (cases c) simp_all

lemma total_foldl:
  "sum_list (map snd (summary_counts (foldl do_call L calls)))
   = sum_list (map snd (summary_counts L)) + length (logged_events calls)"
proof (induction calls arbitrary: L)
  case Nil
  then show ?case by simp
next
  case (Cons c calls)
  show ?case
    using Cons.IH [of "do_call L c"] total_do_call [of L c] logged_events_Cons [of c calls]
    by simp
qed

lemma total_events_logged:
  "total_events (make_footer (logger_after d calls)) = length (logged_events calls)"
  by (simp add: total_events_sum logger_after_def total_foldl new_logger_def)

theorem audit_footer_contract_witness:
  "Close \<notin> set [Log (value_change_event ''standardization_change'' (IntV 1) ''name'' (Some '' a'')
                      (Some ''a'') ''trim_whitespace'' ''standardization.global_trim_whitespace'' ''t0''),
                 Log (value_change_event ''row_dropped'' (IntV 2) ''__row__'' (Some ''row_present'')
                      None ''missing_critical_column'' ''missing_data.drop_if_missing_critical'' ''t0'')]
   \<and> file_lines (close (logger_after Detailed
        [Log (value_change_event ''standardization_change'' (IntV 1) ''name'' (Some '' a'')
                      (Some ''a'') ''trim_whitespace'' ''standardization.global_trim_whitespace'' ''t0''),
         Log (value_change_event ''row_dropped'' (IntV 2) ''__row__'' (Some ''row_present'')
                      None ''missing_critical_column'' ''missing_data.drop_if_missing_critical'' ''t0'')]))
     = [EventLine (value_change_event ''standardization_change'' (IntV 1) ''name'' (Some '' a'')
                      (Some ''a'') ''trim_whitespace'' ''standardization.global_trim_whitespace'' ''t0''),
        EventLine (value_change_event ''row_dropped'' (IntV 2) ''__row__'' (Some ''row_present'')
                      None ''missing_critical_column'' ''missing_data.drop_if_missing_critical'' ''t0''),
        JobSummary \<lparr>f_detail = Detailed, total_events = 2,
                     event_type_counts = [(''row_dropped'', 1), (''standardization_change'', 1)],
                     unique_columns_touched = 1, timestamp_start = Some ''t0'',
                     timestamp_end = Some ''t0'', job_context = []\<rparr>]
   \<and> card (touched_column_set (logger_after Detailed
        [Log (value_change_event ''standardization_change'' (IntV 1) ''name'' (Some '' a'')
                      (Some ''a'') ''trim_whitespace'' ''standardization.global_trim_whitespace'' ''t0''),
         Log (value_change_event ''row_dropped'' (IntV 2) ''__row__'' (Some ''row_present'')
                      None ''missing_critical_column'' ''missing_data.drop_if_missing_critical'' ''t0'')])) = 1"
proof -
  let ?cs = "[Log (value_change_event ''standardization_change'' (IntV 1) ''name'' (Some '' a'')
                      (Some ''a'') ''trim_whitespace'' ''standardization.global_trim_whitespace'' ''t0''),
              Log (value_change_event ''row_dropped'' (IntV 2) ''__row__'' (Some ''row_present'')
                      None ''missing_critical_column'' ''missing_data.drop_if_missing_critical'' ''t0'')]"
  have nc: "Close \<notin> set ?cs" by simp
  have la: "logger_after Detailed ?cs =
      \<lparr>detail = Detailed, opened = True, file_closed = False,
       file_lines = [EventLine (value_change_event ''standardization_change'' (IntV 1) ''name'' (Some '' a'')
                      (Some ''a'') ''trim_whitespace'' ''standardization.global_trim_whitespace'' ''t0''),
                     EventLine (value_change_event ''row_dropped'' (IntV 2) ''__row__'' (Some ''row_present'')
                      None ''missing_critical_column'' ''missing_data.drop_if_missing_critical'' ''t0'')],
       summary_counts = [((''standardization_change'', ''name'', ''trim_whitespace''), 1),
                         ((''row_dropped'', ''__row__'', ''missing_critical_column''), 1)],
       summary_samples = [((''standardization_change'', ''name'', ''trim_whitespace''),
           [value_change_event ''standardization_change'' (IntV 1) ''name'' (Some '' a'')
                      (Some ''a'') ''trim_whitespace'' ''standardization.global_trim_whitespace'' ''t0'']),
          ((''row_dropped'', ''__row__'', ''missing_critical_column''),
           [value_change_event ''row_dropped'' (IntV 2) ''__row__'' (Some ''row_present'')
                      None ''missing_critical_column'' ''missing_data.drop_if_missing_critical'' ''t0''])],
       job_ctx = [], ts_start = Some ''t0'', ts_end = Some ''t0''\<rparr>"
    by (simp add: logger_after_def new_logger_def logger_log_def value_change_event_def Let_def
        aggregate_def event_key_def event_timestamp_def write_line_def max_samples_per_group_def)
  have mf: "make_footer (logger_after Detailed ?cs) =
      \<lparr>f_detail = Detailed, total_events = 2,
       event_type_counts = [(''row_dropped'', 1), (''standardization_change'', 1)],
       unique_columns_touched = 1, timestamp_start = Some ''t0'',
       timestamp_end = Some ''t0'', job_context = []\<rparr>"
    unfolding la by code_simp
  from audit_footer_contract [of Detailed ?cs] nc
  have "file_lines (close (logger_after Detailed ?cs)) =
          file_lines (logger_after Detailed ?cs) @ [JobSummary (make_footer (logger_after Detailed ?cs))]"
    and "unique_columns_touched (make_footer (logger_after Detailed ?cs))
         = card (touched_column_set (logger_after Detailed ?cs))"
    by simp_all
  then show ?thesis unfolding mf using nc by (simp add: la)
qed

section \<open>Proofs: missing data\<close>

lemma events_on_append [simp]: "events_on c (xs @ ys) = events_on c xs @ events_on c ys"
  by (simp add: events_on_def)

lemma events_on_Nil [simp]: "events_on c [] = []"
  by (simp add: events_on_def)

lemma set_by_label: "set (by_label labels per_row) \<subseteq> \<Union> (set ` set per_row)"
proof -
  have "set (map snd (sort_key fst (zip labels per_row))) = snd ` set (zip labels per_row)"
    by simp
  also have "\<dots> \<subseteq> set per_row" by (auto dest: set_zip_rightD)
  finally show ?thesis unfolding by_label_def by auto
qed

lemma events_on_none: "(\<And>e. e \<in> set evs \<Longrightarrow> column e \<noteq> Some c) \<Longrightarrow> events_on c evs = []"
  by (induction evs) (auto simp: events_on_def)

lemma events_on_by_label_other:
  assumes "\<And>es e. es \<in> set per_row \<Longrightarrow> e \<in> set es \<Longrightarrow> column e = Some c'" and "c' \<noteq> c"
  shows "events_on c (by_label labels per_row) = []"
proof (rule events_on_none)
  fix e assume "e \<in> set (by_label labels per_row)"
  with set_by_label [of labels per_row] obtain es where "es \<in> set per_row" "e \<in> set es" by auto
  with assms show "column e \<noteq> Some c" by auto
qed

lemma impute_col_other:
  assumes "c \<noteq> col"
  shows "map_of (df_cols (fst (impute_col lib ts b cfg st c))) col = map_of (df_cols (fst st)) col"
    and "events_on col (snd (impute_col lib ts b cfg st c)) = events_on col (snd st)"
proof -
  have fill_evs: "events_on col (by_label labels
            (map (\<lambda>(m, old_val, rid).
                    if m then [value_change_event et rid c (f old_val) nv rsn sec ts] else [])
               rows)) = []" for labels et f nv rsn sec rows
    by (rule events_on_by_label_other [where c' = c])
       (use assms in \<open>auto simp: value_change_event_def split: if_splits\<close>)
  show "map_of (df_cols (fst (impute_col lib ts b cfg st c))) col = map_of (df_cols (fst st)) col"
    using assms
    by (auto simp: impute_col_def Let_def set_col_def update_conv' split: option.splits prod.splits)
  show "events_on col (snd (impute_col lib ts b cfg st c)) = events_on col (snd st)"
    using assms fill_evs
    by (auto simp: impute_col_def Let_def skip_event_def events_on_def [of col "[_]"]
        split: option.splits prod.splits)
qed

lemma impute_col_index: "df_index (fst (impute_col lib ts b cfg st c)) = df_index (fst st)"
  by (auto simp: impute_col_def Let_def set_col_def split: option.splits prod.splits)

lemma impute_col_names:
  "map fst (df_cols (fst (impute_col lib ts b cfg st c))) = map fst (df_cols (fst st))"
  by (auto simp: impute_col_def Let_def set_col_def update_keys dest: map_of_SomeD
      split: option.splits prod.splits intro: rev_image_eqI)

lemma impute_cols_other:
  "col \<notin> set cs \<Longrightarrow>
   map_of (df_cols (fst (foldl (impute_col lib ts b cfg) st cs))) col = map_of (df_cols (fst st)) col
   \<and> events_on col (snd (foldl (impute_col lib ts b cfg) st cs)) = events_on col (snd st)"
proof (induction cs arbitrary: st)
  case Nil
  then show ?case by simp
next
  case (Cons c cs)
  then have ne: "c \<noteq> col" and rest: "col \<notin> set cs" by auto
  from Cons.IH [OF rest, of "impute_col lib ts b cfg st c"] impute_col_other [OF ne, of lib ts b cfg st]
  show ?case by simp
qed

lemma impute_cols_names:
  "map fst (df_cols (fst (foldl (impute_col lib ts b cfg) st cs))) = map fst (df_cols (fst st))"
  by (induction cs arbitrary: st) (simp_all add: impute_col_names)

lemma impute_cols_index:
  "df_index (fst (foldl (impute_col lib ts b cfg) st cs)) = df_index (fst st)"
  by (induction cs arbitrary: st) (simp_all add: impute_col_index)

lemma in_bucket_cols:
  "col \<in> set (bucket_cols pol b df) \<Longrightarrow> \<exists>s. (col, s) \<in> set (df_cols df) \<and> in_bucket pol b col s"
  by (auto simp: bucket_cols_def)

lemma bucket_cols_mem:
  "distinct (map fst (df_cols df)) \<Longrightarrow> map_of (df_cols df) col = Some s \<Longrightarrow>
   (col \<in> set (bucket_cols pol b df)) = in_bucket pol b col s"
proof -
  assume d: "distinct (map fst (df_cols df))" and m: "map_of (df_cols df) col = Some s"
  have uniq: "s' = s" if "(col, s') \<in> set (df_cols df)" for s'
  proof -
    from map_of_is_SomeI [OF d that] m show ?thesis by simp
  qed
  have mem: "(col, s) \<in> set (df_cols df)" using m by (rule map_of_SomeD)
  show ?thesis
  proof
    assume "col \<in> set (bucket_cols pol b df)"
    then obtain s' where "(col, s') \<in> set (df_cols df)" "in_bucket pol b col s'"
      using in_bucket_cols by blast
    with uniq show "in_bucket pol b col s" by blast
  next
    assume "in_bucket pol b col s"
    with mem have "(col, s) \<in> set (filter (\<lambda>(c, s). in_bucket pol b c s) (df_cols df))" by simp
    then have "col \<in> fst ` set (filter (\<lambda>(c, s). in_bucket pol b c s) (df_cols df))"
      by (rule rev_image_eqI) simp
    then show "col \<in> set (bucket_cols pol b df)" by (simp add: bucket_cols_def)
  qed
qed

lemma distinct_bucket_cols:
  "distinct (map fst (df_cols df)) \<Longrightarrow> distinct (bucket_cols pol b df)"
  by (simp add: bucket_cols_def distinct_map_filter)

text \<open>A column that no bucket takes is left alone by a whole bucket.\<close>

lemma impute_bucket_not_eligible:
  assumes "\<And>s. \<not> in_bucket pol b col s"
  shows "map_of (df_cols (fst (impute_bucket lib pol ts st b))) col = map_of (df_cols (fst st)) col
   \<and> events_on col (snd (impute_bucket lib pol ts st b)) = events_on col (snd st)"
proof -
  have "col \<notin> set (bucket_cols pol b (fst st))"
    using assms in_bucket_cols by blast
  then show ?thesis
    by (auto simp: impute_bucket_def impute_cols_other split: option.splits)
qed

lemma impute_bucket_names:
  "map fst (df_cols (fst (impute_bucket lib pol ts st b))) = map fst (df_cols (fst st))"
  by (simp add: impute_bucket_def impute_cols_names split: option.splits)

lemma impute_bucket_index:
  "df_index (fst (impute_bucket lib pol ts st b)) = df_index (fst st)"
  by (simp add: impute_bucket_def impute_cols_index split: option.splits)

lemma missing_ratio_pos:
  "0 < missing_ratio s \<Longrightarrow> list_ex id (map is_effectively_missing (vals s))"
proof -
  assume "0 < missing_ratio s"
  then have "filter is_effectively_missing (vals s) \<noteq> []"
    by (auto simp: missing_ratio_def)
  then obtain v where "v \<in> set (vals s)" "is_effectively_missing v"
    by (metis filter_False)
  then show ?thesis by (auto simp: list_ex_iff)
qed

lemma impute_col_skip:
  assumes "map_of (df_cols (fst st)) col = Some s"
    and "0 \<le> allow_if_missing_pct_leq cfg" and "allow_if_missing_pct_leq cfg < missing_ratio s"
  shows "impute_col lib ts b cfg st col =
           (fst st, snd st @ [skip_event col b (missing_ratio s) (allow_if_missing_pct_leq cfg) ts])"
proof -
  from assms have "0 < missing_ratio s" by simp
  then have "list_ex id (map is_effectively_missing (vals s))" by (rule missing_ratio_pos)
  then show ?thesis using assms by (simp add: impute_col_def Let_def)
qed

lemma events_on_skip [simp]: "events_on col [skip_event col b r t ts] = [skip_event col b r t ts]"
  by (simp add: events_on_def skip_event_def)

lemma impute_cols_skip:
  assumes "distinct cs" and "col \<in> set cs"
    and "map_of (df_cols (fst st)) col = Some s"
    and "0 \<le> allow_if_missing_pct_leq cfg" and "allow_if_missing_pct_leq cfg < missing_ratio s"
  shows "map_of (df_cols (fst (foldl (impute_col lib ts b cfg) st cs))) col = Some s
     \<and> events_on col (snd (foldl (impute_col lib ts b cfg) st cs))
         = events_on col (snd st) @ [skip_event col b (missing_ratio s) (allow_if_missing_pct_leq cfg) ts]"
proof -
  from assms(2) obtain xs ys where cs: "cs = xs @ col # ys" by (auto simp: in_set_conv_decomp)
  with assms(1) have nx: "col \<notin> set xs" and ny: "col \<notin> set ys" by auto
  let ?f = "impute_col lib ts b cfg"
  let ?st1 = "foldl ?f st xs"
  from impute_cols_other [OF nx, of lib ts b cfg st] assms(3)
  have s1: "map_of (df_cols (fst ?st1)) col = Some s"
    and e1: "events_on col (snd ?st1) = events_on col (snd st)" by simp_all
  let ?st2 = "?f ?st1 col"
  from impute_col_skip [OF s1 assms(4,5), of lib ts b]
  have st2: "?st2 = (fst ?st1, snd ?st1 @ [skip_event col b (missing_ratio s) (allow_if_missing_pct_leq cfg) ts])" .
  from impute_cols_other [OF ny, of lib ts b cfg ?st2]
  have "map_of (df_cols (fst (foldl ?f ?st2 ys))) col = Some s"
    and "events_on col (snd (foldl ?f ?st2 ys))
         = events_on col (snd st) @ [skip_event col b (missing_ratio s) (allow_if_missing_pct_leq cfg) ts]"
    unfolding st2 using s1 e1 by simp_all
  then show ?thesis unfolding cs by simp
qed

lemma in_bucket_exclusive: "in_bucket pol b col s \<Longrightarrow> b' \<noteq> b \<Longrightarrow> \<not> in_bucket pol b' col s"
  by (cases b; cases b')
     (auto simp: in_bucket_def Let_def numeric_types_def datetime_types_def
        is_numeric_dtype_def is_datetime64_any_dtype_def split: if_splits)

text \<open>A bucket other than the column's own does not touch it.\<close>

lemma impute_bucket_other:
  assumes "distinct (map fst (df_cols (fst st)))" and "map_of (df_cols (fst st)) col = Some s"
    and "in_bucket pol b col s" and "b' \<noteq> b"
  shows "map_of (df_cols (fst (impute_bucket lib pol ts st b'))) col = Some s
     \<and> events_on col (snd (impute_bucket lib pol ts st b')) = events_on col (snd st)"
proof -
  have "col \<notin> set (bucket_cols pol b' (fst st))"
    using bucket_cols_mem [OF assms(1,2)] in_bucket_exclusive [OF assms(3,4)] by simp
  then show ?thesis
    using assms(2) by (auto simp: impute_bucket_def impute_cols_other split: option.splits)
qed

lemma impute_bucket_own:
  assumes "distinct (map fst (df_cols (fst st)))" and "map_of (df_cols (fst st)) col = Some s"
    and "in_bucket pol b col s" and "bucket_cfg_of pol b = Some cfg"
    and "\<not> (default_strategy cfg = ''none'' \<and> constants cfg = [])"
    and "0 \<le> allow_if_missing_pct_leq cfg" and "allow_if_missing_pct_leq cfg < missing_ratio s"
  shows "map_of (df_cols (fst (impute_bucket lib pol ts st b))) col = Some s
     \<and> events_on col (snd (impute_bucket lib pol ts st b))
         = events_on col (snd st) @ [skip_event col b (missing_ratio s) (allow_if_missing_pct_leq cfg) ts]"
proof -
  have m: "col \<in> set (bucket_cols pol b (fst st))"
    using bucket_cols_mem [OF assms(1,2)] assms(3) by simp
  have d: "distinct (bucket_cols pol b (fst st))" using assms(1) by (rule distinct_bucket_cols)
  from impute_cols_skip [OF d m assms(2,6,7), of lib ts b] assms(4,5)
  show ?thesis by (auto simp: impute_bucket_def)
qed

lemma impute_bucket_step:
  assumes "distinct (map fst (df_cols (fst st)))" and "map_of (df_cols (fst st)) col = Some s"
    and "in_bucket pol b col s" and "bucket_cfg_of pol b = Some cfg"
    and "\<not> (default_strategy cfg = ''none'' \<and> constants cfg = [])"
    and "0 \<le> allow_if_missing_pct_leq cfg" and "allow_if_missing_pct_leq cfg < missing_ratio s"
  shows "distinct (map fst (df_cols (fst (impute_bucket lib pol ts st b'))))
     \<and> map_of (df_cols (fst (impute_bucket lib pol ts st b'))) col = Some s
     \<and> events_on col (snd (impute_bucket lib pol ts st b'))
         = events_on col (snd st)
           @ (if b' = b then [skip_event col b (missing_ratio s) (allow_if_missing_pct_leq cfg) ts]
              else [])"
proof (cases "b' = b")
  case True
  with impute_bucket_own [OF assms, of lib ts] assms(1) show ?thesis
    by (simp add: impute_bucket_names)
next
  case False
  with impute_bucket_other [OF assms(1,2,3) False, of lib ts] assms(1) show ?thesis
    by (simp add: impute_bucket_names)
qed

text \<open>
  C3: a column that a configured bucket takes and whose effective-missing ratio is above
  the bucket's ceiling (a ceiling that is not negative) comes out of \<open>apply_imputation\<close>
  unchanged, and exactly one of the logged events names it: the
  \<open>imputation_skipped_threshold\<close> event of that bucket, whose reason is
  \<open>missing_pct_\<close>, the ratio, \<open>_gt_\<close> and the ceiling, both with four decimals.
\<close>

theorem imputation_threshold_gate:
  assumes "has_col df ''_row_id''" and "distinct (map fst (df_cols df))"
    and "m_enabled (missing_data pol)"
    and "bucket_cfg_of pol b = Some cfg"
    and "\<not> (default_strategy cfg = ''none'' \<and> constants cfg = [])"
    and "map_of (df_cols df) col = Some s" and "in_bucket pol b col s"
    and "0 \<le> allow_if_missing_pct_leq cfg" and "allow_if_missing_pct_leq cfg < missing_ratio s"
  shows "\<exists>df' evs. apply_imputation lib pol ts df = Inr (df', evs)
     \<and> map_of (df_cols df') col = Some s
     \<and> events_on col evs
         = [skip_event col b (missing_ratio s) (allow_if_missing_pct_leq cfg) ts]"
proof -
  let ?st0 = "(df, []) :: dataframe \<times> event list"
  let ?st1 = "impute_bucket lib pol ts ?st0 Numeric"
  let ?st2 = "impute_bucket lib pol ts ?st1 Datetime"
  let ?st3 = "impute_bucket lib pol ts ?st2 Categorical"
  let ?ev = "skip_event col b (missing_ratio s) (allow_if_missing_pct_leq cfg) ts"
  have cfgs: "\<not> (imp_numeric (missing_data pol) = None \<and> imp_datetime (missing_data pol) = None
              \<and> imp_categorical (missing_data pol) = None)"
    using assms(4) by (cases b) auto
  have run: "apply_imputation lib pol ts df = Inr ?st3"
    using assms(1,3) cfgs by (auto simp: apply_imputation_def)
  have d0: "distinct (map fst (df_cols (fst ?st0)))" and m0: "map_of (df_cols (fst ?st0)) col = Some s"
    using assms(2,6) by simp_all
  note s1 = impute_bucket_step [OF d0 m0 assms(7,4,5,8,9), of lib ts Numeric]
  from s1 have d1: "distinct (map fst (df_cols (fst ?st1)))"
    and m1: "map_of (df_cols (fst ?st1)) col = Some s" by simp_all
  note s2 = impute_bucket_step [OF d1 m1 assms(7,4,5,8,9), of lib ts Datetime]
  from s2 have d2: "distinct (map fst (df_cols (fst ?st2)))"
    and m2: "map_of (df_cols (fst ?st2)) col = Some s" by simp_all
  note s3 = impute_bucket_step [OF d2 m2 assms(7,4,5,8,9), of lib ts Categorical]
  have e1: "events_on col (snd ?st1) = (if Numeric = b then [?ev] else [])" using s1 by simp
  have e2: "events_on col (snd ?st2)
            = (if Numeric = b then [?ev] else []) @ (if Datetime = b then [?ev] else [])"
    using s2 e1 by simp
  have e3: "events_on col (snd ?st3)
            = (if Numeric = b then [?ev] else []) @ (if Datetime = b then [?ev] else [])
              @ (if Categorical = b then [?ev] else [])"
    using s3 e2 by simp
  have "events_on col (snd ?st3) = [?ev]" unfolding e3 by (cases b) simp_all
  moreover have "map_of (df_cols (fst ?st3)) col = Some s" using s3 by simp
  ultimately show ?thesis using run by (metis prod.collapse)
qed

text \<open>
  C8, as the code has it: a column of the protected set, and the \<open>_row_id\<close> column, is
  in no bucket, so the imputation phase leaves every cell of it as it was and logs nothing
  about it. The critical-role set is not consulted by \<open>apply_imputation\<close>: a critical
  column is taken into its bucket like any other.
\<close>

theorem imputation_skips_protected:
  assumes "col \<in> set (protected_columns (roles pol)) \<or> col = ''_row_id''"
    and "apply_imputation lib pol ts df = Inr (df', evs)"
  shows "map_of (df_cols df') col = map_of (df_cols df) col \<and> events_on col evs = []"
proof -
  have ne: "\<not> in_bucket pol b col s" for b s
    using assms(1) by (simp add: in_bucket_def)
  let ?st0 = "(df, []) :: dataframe \<times> event list"
  let ?st1 = "impute_bucket lib pol ts ?st0 Numeric"
  let ?st2 = "impute_bucket lib pol ts ?st1 Datetime"
  let ?st3 = "impute_bucket lib pol ts ?st2 Categorical"
  have "map_of (df_cols (fst ?st3)) col = map_of (df_cols df) col \<and> events_on col (snd ?st3) = []"
    using impute_bucket_not_eligible [of pol Numeric col lib ts ?st0]
      impute_bucket_not_eligible [of pol Datetime col lib ts ?st1]
      impute_bucket_not_eligible [of pol Categorical col lib ts ?st2] ne
    by simp
  moreover have "(df', evs) = ?st3 \<or> (df', evs) = (df, [])"
    using assms(2) by (auto simp: apply_imputation_def split: if_splits)
  ultimately show ?thesis
    by (metis events_on_Nil fst_conv snd_conv)
qed

theorem imputation_threshold_gate_witness:
  "missing_ratio \<lparr>sdtype = DFloat, vals = [FloatV 10, Null, Null, FloatV 40]\<rparr> = 1 / 2
   \<and> apply_imputation example_lib threshold_example_policy ''2023-01-01T12:00:00Z''
         threshold_example_df
       = Inr (threshold_example_df,
              [\<lparr>timestamp = Some (Some ''2023-01-01T12:00:00Z''),
                event_type = Some ''imputation_skipped_threshold'',
                reason = Some ''missing_pct_0.5000_gt_0.2500'',
                policy_section = Some ''missing_data.imputation.numeric'',
                column = Some ''val'', row_id = None, old_value = None,
                new_value = None, ev_count = None\<rparr>])
   \<and> (\<exists>df' evs. apply_imputation example_lib threshold_example_policy ''2023-01-01T12:00:00Z''
                     threshold_example_df = Inr (df', evs)
        \<and> map_of (df_cols df') ''val''
            = Some \<lparr>sdtype = DFloat, vals = [FloatV 10, Null, Null, FloatV 40]\<rparr>
        \<and> events_on ''val'' evs
            = [skip_event ''val'' Numeric
                 (missing_ratio \<lparr>sdtype = DFloat, vals = [FloatV 10, Null, Null, FloatV 40]\<rparr>)
                 (allow_if_missing_pct_leq
                    \<lparr>default_strategy = ''mean'', constants = [], allow_if_missing_pct_leq = 1 / 4\<rparr>)
                 ''2023-01-01T12:00:00Z''])"
proof -
  let ?s = "\<lparr>sdtype = DFloat, vals = [FloatV 10, Null, Null, FloatV 40]\<rparr>"
  let ?cfg = "\<lparr>default_strategy = ''mean'', constants = [], allow_if_missing_pct_leq = 1 / 4\<rparr>"
  have h1: "has_col threshold_example_df ''_row_id''" by code_simp
  have h2: "distinct (map fst (df_cols threshold_example_df))" by code_simp
  have h3: "m_enabled (missing_data threshold_example_policy)" by code_simp
  have h4: "bucket_cfg_of threshold_example_policy Numeric = Some ?cfg" by code_simp
  have h5: "\<not> (default_strategy ?cfg = ''none'' \<and> constants ?cfg = [])" by simp
  have h6: "map_of (df_cols threshold_example_df) ''val'' = Some ?s" by code_simp
  have h7: "in_bucket threshold_example_policy Numeric ''val'' ?s" by code_simp
  have h8: "0 \<le> allow_if_missing_pct_leq ?cfg" by simp
  have r: "missing_ratio ?s = 1 / 2" by code_simp
  have h9: "allow_if_missing_pct_leq ?cfg < missing_ratio ?s" unfolding r by simp
  have ev: "apply_imputation example_lib threshold_example_policy ''2023-01-01T12:00:00Z''
         threshold_example_df
       = Inr (threshold_example_df,
              [\<lparr>timestamp = Some (Some ''2023-01-01T12:00:00Z''),
                event_type = Some ''imputation_skipped_threshold'',
                reason = Some ''missing_pct_0.5000_gt_0.2500'',
                policy_section = Some ''missing_data.imputation.numeric'',
                column = Some ''val'', row_id = None, old_value = None,
                new_value = None, ev_count = None\<rparr>])"
    by code_simp
  note ex = imputation_threshold_gate [OF h1 h2 h3 h4 h5 h6 h7 h8 h9,
      of example_lib "''2023-01-01T12:00:00Z''"]
  from r ev ex show ?thesis by (intro conjI)
qed

theorem imputation_skips_protected_witness:
  "apply_imputation example_lib protected_example_policy ''2023-01-01T12:00:00Z''
     protected_example_df
   = Inr (\<lparr>df_index = [0, 1],
           df_cols = [(''_row_id'', \<lparr>sdtype = DInt, vals = [IntV 1, IntV 2]\<rparr>),
                      (''secret_note'', \<lparr>sdtype = DObject, vals = [Null, Str ''existing'']\<rparr>),
                      (''note'', \<lparr>sdtype = DObject, vals = [Str ''FILL_ME'', Str ''existing'']\<rparr>)]\<rparr>,
          [\<lparr>timestamp = Some (Some ''2023-01-01T12:00:00Z''),
            event_type = Some ''imputation_fill'', reason = Some ''imputation_constant'',
            policy_section = Some ''missing_data.imputation.categorical'',
            column = Some ''note'', row_id = Some (IntV 1), old_value = None,
            new_value = Some ''FILL_ME'', ev_count = None\<rparr>])
   \<and> events_on ''secret_note''
        [\<lparr>timestamp = Some (Some ''2023-01-01T12:00:00Z''),
          event_type = Some ''imputation_fill'', reason = Some ''imputation_constant'',
          policy_section = Some ''missing_data.imputation.categorical'',
          column = Some ''note'', row_id = Some (IntV 1), old_value = None,
          new_value = Some ''FILL_ME'', ev_count = None\<rparr>] = []"
proof -
  have h: "''secret_note'' \<in> set (protected_columns (roles protected_example_policy))
           \<or> ''secret_note'' = ''_row_id''" by code_simp
  have ev: "apply_imputation example_lib protected_example_policy ''2023-01-01T12:00:00Z''
     protected_example_df
   = Inr (\<lparr>df_index = [0, 1],
           df_cols = [(''_row_id'', \<lparr>sdtype = DInt, vals = [IntV 1, IntV 2]\<rparr>),
                      (''secret_note'', \<lparr>sdtype = DObject, vals = [Null, Str ''existing'']\<rparr>),
                      (''note'', \<lparr>sdtype = DObject, vals = [Str ''FILL_ME'', Str ''existing'']\<rparr>)]\<rparr>,
          [\<lparr>timestamp = Some (Some ''2023-01-01T12:00:00Z''),
            event_type = Some ''imputation_fill'', reason = Some ''imputation_constant'',
            policy_section = Some ''missing_data.imputation.categorical'',
            column = Some ''note'', row_id = Some (IntV 1), old_value = None,
            new_value = Some ''FILL_ME'', ev_count = None\<rparr>])"
    by code_simp
  from imputation_skips_protected [OF h ev] ev show ?thesis by simp
qed

text \<open>
  The claim that critical columns are never filled fails on the code: with the critical
  drop switched off, the gaps of the critical column \<open>x_num\<close> are filled with its mean.
\<close>

theorem imputation_fills_critical_counterexample:
  "''x_num'' \<in> set (critical_columns (roles critical_example_policy))
   \<and> map_of (df_cols critical_example_df) ''x_num''
       = Some \<lparr>sdtype = DFloat, vals = [FloatV 1, Null, FloatV 3, Null]\<rparr>
   \<and> result_col (apply_imputation example_lib critical_example_policy ''2023-01-01T12:00:00Z''
                    critical_example_df) ''x_num''
       = Some \<lparr>sdtype = DFloat, vals = [FloatV 1, FloatV 2, FloatV 3, FloatV 2]\<rparr>"
  by code_simp

end
